theory Spec2Isabelle
  imports Main "HOL-Library.AList"
begin

section \<open>Values, handles and the identity maps\<close>

text \<open>
  The buffer manager keeps four JavaScript \<^verbatim>\<open>Map\<close>s between handles of the host
  editor and ids of the backend. Documents and editors are reference stable objects:
  they are modelled as references, and what the host reports about them (column,
  document, options, text) is read through the \<open>host\<close> record at the time a handler
  runs. A \<^verbatim>\<open>Map\<close> keeps its entries in insertion order, \<^verbatim>\<open>set\<close> overwrites in
  place or appends, \<^verbatim>\<open>delete\<close> removes: an association list with
  \<open>AList.update\<close> and \<open>AList.delete\<close>.
\<close>

type_synonym doc_ref = nat
type_synonym ed_ref = nat

text \<open>A JavaScript number as far as the manager uses one: a double that is an integer,
  \<^verbatim>\<open>NaN\<close> (what \<^verbatim>\<open>parseInt\<close> returns on a string without digits), or an infinity (what it
  returns on digits beyond the range of a double). The two zeros are one value here.\<close>

datatype jsnum = Num int | NaN | PosInfinity | NegInfinity

datatype jsval =
    VUndefined
  | VNum jsnum
  | VStr string
  | VBool bool
  | VArr "jsval list"

text \<open>A backend request \<^verbatim>\<open>[name, args]\<close>.\<close>

type_synonym request = "string \<times> jsval list"

abbreviation vint :: "int \<Rightarrow> jsval" where
  "vint n \<equiv> VNum (Num n)"

definition has :: "('k \<times> 'v) list \<Rightarrow> 'k \<Rightarrow> bool" where
  "has m k = (map_of m k \<noteq> None)"

text \<open>The messages given to \<^verbatim>\<open>logger.error\<close>, as values. \<open>RequestRejected\<close> is the message
  of a rejected request of the backend that a \<^verbatim>\<open>catch\<close> logs.\<close>

datatype error =
    CannotCreateBuffer int
  | UnableToCreateTemporaryBuffer int
  | UnableToCreateWindow int
  | InvalidNeovimWindow
  | UnableToDetermineWindow
  | RequestRejected

record state =
  changeLayoutPromise :: bool
  openedEditors :: "ed_ref list"
  textDocumentToBufferId :: "(doc_ref \<times> jsnum) list"
  editorColumnsToWinId :: "(int \<times> int) list"
  noColumnEditorsToWinId :: "(ed_ref \<times> int) list"
  grids :: "(int \<times> int) list"
  issued :: "request list list"
  logged :: "error list"
  createBufferCalls :: nat
  openWindowCalls :: nat
  bufferInits :: "(int \<times> doc_ref) list"
  listening :: "int list"

text \<open>
  Besides the fields of the class, the state records what a handler did to the outside:
  \<open>issued\<close> are the batches handed to the backend (one list per atomic call, a single
  request as a batch of one), \<open>logged\<close> the errors logged, \<open>createBufferCalls\<close> and
  \<open>openWindowCalls\<close> how many buffers and windows the backend was asked to create,
  \<open>bufferInits\<close> the calls of the \<^verbatim>\<open>onBufferInit\<close> delegate and \<open>listening\<close> the buffers
  whose line events are listened to. \<open>changeLayoutPromise\<close> is whether the readiness
  promise is outstanding.
\<close>

definition initial :: state where
  "initial = \<lparr> changeLayoutPromise = False, openedEditors = [],
     textDocumentToBufferId = [], editorColumnsToWinId = [],
     noColumnEditorsToWinId = [], grids = [], issued = [], logged = [],
     createBufferCalls = 0, openWindowCalls = 0, bufferInits = [], listening = [] \<rparr>"

section \<open>Redraw events and document close\<close>

text \<open>
  A redraw event is its name and its argument tuples; the handler reads a tuple as
  \<^verbatim>\<open>[grid, win]\<close> (the window through its id) and, for \<^verbatim>\<open>win_close\<close>, as \<^verbatim>\<open>[grid]\<close>.
\<close>

type_synonym redraw_event = "string \<times> (int \<times> int) list"

fun handleRedrawEvent :: "redraw_event \<Rightarrow> (int \<times> int) list \<Rightarrow> (int \<times> int) list" where
  "handleRedrawEvent (name, args) g =
     (if name = ''win_external_pos'' \<or> name = ''win_pos''
      then fold (\<lambda>(grid, win) g'. AList.update grid win g') args g
      else if name = ''win_close''
      then fold (\<lambda>(grid, win) g'. AList.delete grid g') args g
      else g)"

definition handleRedrawBatch :: "redraw_event list \<Rightarrow> state \<Rightarrow> state" where
  "handleRedrawBatch batch s = s\<lparr>grids := fold handleRedrawEvent batch (grids s)\<rparr>"

definition onDidCloseTextDocument :: "doc_ref \<Rightarrow> state \<Rightarrow> state" where
  "onDidCloseTextDocument e s =
     s\<lparr>textDocumentToBufferId := AList.delete e (textDocumentToBufferId s)\<rparr>"

section \<open>The host editor and the backend as a handler sees them\<close>

datatype EndOfLine = LF | CRLF

datatype 'a reply = Rejected | Resolved 'a

text \<open>
  What the \<^verbatim>\<open>vscode\<close> namespace reports while one handler runs. \<open>viewColumn\<close> is
  \<^verbatim>\<open>undefined\<close> (\<open>None\<close>) for an editor outside the columns; \<open>cursorPos\<close> is the result of
  \<^verbatim>\<open>getNeovimCursorPosFromEditor\<close> (of \<^verbatim>\<open>utils\<close>, outside this module), \<open>uri\<close> the result of
  \<^verbatim>\<open>document.uri.toString()\<close>. The last fields are the host's answers to the calls the
  request handler makes: a promise resolves or is rejected; \<open>uriParses\<close> is whether
  \<^verbatim>\<open>Uri.parse(name, true)\<close> returns (it raises on a name it does not take for a URI).
\<close>

record host =
  visibleTextEditors :: "ed_ref list"
  activeTextEditor :: "ed_ref option"
  textDocuments :: "doc_ref list"
  viewColumn :: "ed_ref \<Rightarrow> int option"
  document :: "ed_ref \<Rightarrow> doc_ref"
  insertSpaces :: "ed_ref \<Rightarrow> bool"
  tabSize :: "ed_ref \<Rightarrow> int"
  cursorPos :: "ed_ref \<Rightarrow> int \<times> int"
  uri :: "doc_ref \<Rightarrow> string"
  eol :: "doc_ref \<Rightarrow> EndOfLine"
  getText :: "doc_ref \<Rightarrow> string"
  openTextDocument :: "string option \<Rightarrow> doc_ref option reply"
  uriParses :: "string \<Rightarrow> bool"
  openTextDocumentUri :: "string \<Rightarrow> doc_ref reply"
  showTextDocument :: "doc_ref \<Rightarrow> int option \<Rightarrow> ed_ref reply"
  executeCommand :: "string \<Rightarrow> unit reply"

text \<open>
  The backend's answers to \<^verbatim>\<open>createBuffer\<close> and \<^verbatim>\<open>openWindow\<close>, by the number of the call:
  the promise is rejected, or it resolves to an error code (\<open>Inl\<close>, the
  \<^verbatim>\<open>typeof buf === "number"\<close> case) or to the new buffer or window (\<open>Inr\<close>, its id).
\<close>

record client =
  createBuffer :: "nat \<Rightarrow> (int + int) reply"
  openWindow :: "nat \<Rightarrow> (int + int) reply"

section \<open>Strings\<close>

definition isWhiteSpace :: "char \<Rightarrow> bool" where
  "isWhiteSpace c = (c \<in> set [CHR 0x09, CHR 0x0A, CHR 0x0B, CHR 0x0C, CHR 0x0D, CHR 0x20, CHR 0xA0])"

definition trim :: "string \<Rightarrow> string" where
  "trim s = rev (dropWhile isWhiteSpace (rev (dropWhile isWhiteSpace s)))"

definition isDigit :: "char \<Rightarrow> bool" where
  "isDigit c = (48 \<le> (of_char c :: nat) \<and> (of_char c :: nat) \<le> 57)"

text \<open>
  The double nearest to a natural number. A double has 53 bits of precision:
  \<open>excessBits n\<close> is how many low bits of \<open>n\<close> do not fit, and the number is rounded at
  that bit to the nearest, to the even one in a tie; what rounds to \<open>2 ^ 1024\<close> or more is
  infinite.
\<close>

function excessBits :: "int \<Rightarrow> nat" where
  "excessBits n = (if n < 2 ^ 53 then 0 else Suc (excessBits (n div 2)))"
  by pat_completeness auto
termination
  by (relation "measure nat") auto

declare excessBits.simps [simp del]

definition toNumber :: "int \<Rightarrow> jsnum" where
  "toNumber n =
     (let k = excessBits n; q = n div 2 ^ k; r = n mod 2 ^ k;
          q' = (if 2 ^ k < 2 * r \<or> (2 * r = 2 ^ k \<and> odd q) then q + 1 else q);
          m = q' * 2 ^ k
      in if 2 ^ 1024 \<le> m then PosInfinity else Num m)"

fun negate :: "jsnum \<Rightarrow> jsnum" where
  "negate (Num n) = Num (- n)"
| "negate NaN = NaN"
| "negate PosInfinity = NegInfinity"
| "negate NegInfinity = PosInfinity"

definition digits :: "string \<Rightarrow> jsnum" where
  "digits s =
     (let ds = takeWhile isDigit s
      in if ds = [] then NaN
         else toNumber (foldl (\<lambda>a d. 10 * a + (of_char d - 48)) 0 ds))"

text \<open>\<^verbatim>\<open>parseInt(s, 10)\<close>: leading white space, a sign, then the longest run of decimal
  digits, read exactly and then rounded to a double; \<^verbatim>\<open>NaN\<close> when there is no digit.\<close>

definition parseInt :: "string \<Rightarrow> jsnum" where
  "parseInt s =
     (case dropWhile isWhiteSpace s of
        [] \<Rightarrow> NaN
      | c # cs \<Rightarrow>
          if c = CHR ''-'' then negate (digits cs)
          else if c = CHR ''+'' then digits cs
          else digits (c # cs))"

text \<open>\<^verbatim>\<open>/:\/\//.test(name)\<close>: the text occurs somewhere in the name.\<close>

fun contains :: "string \<Rightarrow> string \<Rightarrow> bool" where
  "contains sub [] = (sub = [])"
| "contains sub (x # xs) = (take (length sub) (x # xs) = sub \<or> contains sub xs)"

definition uriShaped :: "string \<Rightarrow> bool" where
  "uriShaped name = (name \<noteq> [] \<and> contains ''://'' name)"

text \<open>\<^verbatim>\<open>text.split(sep)\<close> for a separator that is not empty: \<open>cur\<close> is the line read so far.\<close>

function split :: "string \<Rightarrow> string \<Rightarrow> string \<Rightarrow> string list" where
  "split sep cur [] = [cur]"
| "split sep cur (x # xs) =
     (if sep \<noteq> [] \<and> take (length sep) (x # xs) = sep
      then cur # split sep [] (drop (length sep) (x # xs))
      else split sep (cur @ [x]) xs)"
  by pat_completeness auto
termination
  by (relation "measure (\<lambda>(sep, cur, xs). length xs)") (auto simp: neq_Nil_conv)

fun joinWith :: "string \<Rightarrow> string list \<Rightarrow> string" where
  "joinWith sep [] = []"
| "joinWith sep [l] = l"
| "joinWith sep (l # ls) = l @ sep @ joinWith sep ls"

definition eolString :: "EndOfLine \<Rightarrow> string" where
  "eolString e = (if e = LF then [CHR 0x0A] else [CHR 0x0D, CHR 0x0A])"

section \<open>Buffer initializer and window creator\<close>

text \<open>
  Modelled from the spec: \<^verbatim>\<open>callAtomic\<close> of \<^verbatim>\<open>utils\<close> is not part of this module. The
  Atomic Batch Helper executes the sequence as one indivisible call and only logs a
  failure result: the batch, also an empty one, is handed to the backend, and nothing
  is raised.
\<close>

definition callAtomic :: "request list \<Rightarrow> state \<Rightarrow> state" where
  "callAtomic requests s = s\<lparr>issued := issued s @ [requests]\<rparr>"

definition tabOptionRequests :: "jsval \<Rightarrow> bool \<Rightarrow> int \<Rightarrow> request list" where
  "tabOptionRequests bufId iS tS =
     [(''nvim_buf_set_option'', [bufId, VStr ''expandtab'', VBool iS]),
      (''nvim_buf_set_option'', [bufId, VStr ''tabstop'', vint (if iS then tS else 1)]),
      (''nvim_buf_set_option'', [bufId, VStr ''shiftwidth'', vint (if iS then tS else 1)])]"

definition initRequests :: "host \<Rightarrow> doc_ref \<Rightarrow> int \<Rightarrow> ed_ref option \<Rightarrow> request list" where
  "initRequests h doc bufId editor =
     (let (iS, tS) = (case editor of Some e \<Rightarrow> (insertSpaces h e, tabSize h e) | None \<Rightarrow> (True, 4));
          lines = split (eolString (eol h doc)) [] (getText h doc)
      in tabOptionRequests (vint bufId) iS tS @
         [(''nvim_buf_set_lines'', [vint bufId, vint 0, vint 1, VBool False, VArr (map VStr lines)]),
          (''nvim_buf_set_var'', [vint bufId, VStr ''vscode_controlled'', VBool True]),
          (''nvim_buf_set_name'', [vint bufId, VStr (uri h doc)]),
          (''nvim_call_function'', [VStr ''VSCodeClearUndo'', VArr [vint bufId]]),
          (''nvim_buf_set_option'', [vint bufId, VStr ''buflisted'', VBool True])])"

definition initBufferForDocument :: "host \<Rightarrow> doc_ref \<Rightarrow> int \<Rightarrow> ed_ref option \<Rightarrow> state \<Rightarrow> state" where
  "initBufferForDocument h doc bufId editor s =
     (let s' = callAtomic (initRequests h doc bufId editor) s
      in s'\<lparr>bufferInits := bufferInits s' @ [(bufId, doc)],
            listening := listening s' @ [bufId]\<rparr>)"

definition resyncBufferTabOptions :: "host \<Rightarrow> ed_ref \<Rightarrow> jsnum \<Rightarrow> state \<Rightarrow> state" where
  "resyncBufferTabOptions h editor bufId s =
     callAtomic (tabOptionRequests (VNum bufId) (insertSpaces h editor) (tabSize h editor)) s"

text \<open>\<^verbatim>\<open>createNeovimWindow\<close> returns the id of the new window or raises: \<open>Inl\<close> is the error
  raised, its own or the rejection of a request.\<close>

definition createNeovimWindow :: "client \<Rightarrow> state \<Rightarrow> (error + int) \<times> state" where
  "createNeovimWindow c s =
     (let s1 = s\<lparr>createBufferCalls := Suc (createBufferCalls s)\<rparr>
      in case createBuffer c (createBufferCalls s) of
           Rejected \<Rightarrow> (Inl RequestRejected, s1)
         | Resolved (Inl code) \<Rightarrow> (Inl (UnableToCreateTemporaryBuffer code), s1)
         | Resolved (Inr buf) \<Rightarrow>
             (let s2 = s1\<lparr>openWindowCalls := Suc (openWindowCalls s1)\<rparr>
              in case openWindow c (openWindowCalls s1) of
                   Rejected \<Rightarrow> (Inl RequestRejected, s2)
                 | Resolved (Inl code) \<Rightarrow> (Inl (UnableToCreateWindow code), s2)
                 | Resolved (Inr win) \<Rightarrow>
                     (Inr win,
                      callAtomic
                        [(''nvim_win_set_var'', [vint win, VStr ''vscode_clearjumps'', VBool True]),
                         (''nvim_buf_set_option'', [vint buf, VStr ''vscode_temp'', VBool True]),
                         (''nvim_buf_set_option'', [vint buf, VStr ''hidden'', VBool False]),
                         (''nvim_buf_set_option'', [vint buf, VStr ''bufhidden'', VStr ''wipe''])]
                        s2)))"

section \<open>The layout reconciler\<close>

text \<open>The column of an editor when \<^verbatim>\<open>editor.viewColumn\<close> is truthy.\<close>

fun truthyColumn :: "int option \<Rightarrow> int option" where
  "truthyColumn None = None"
| "truthyColumn (Some n) = (if n = 0 then None else Some n)"

text \<open>How a handler ends: it returns, or what it raised escapes it.\<close>

datatype outcome = Returned | Threw

text \<open>Lines 284 to 297: a buffer for a document the maps do not know. The document has
  its buffer (\<open>Ready\<close>), or the backend answered with an error code and the editor is
  skipped (\<open>Skipped\<close>), or the request was rejected (\<open>Raised\<close>): this \<^verbatim>\<open>await\<close> stands outside
  the \<^verbatim>\<open>try\<close>.\<close>

datatype buffer_step = Ready | Skipped | Raised

definition createBufferIfUnknown :: "client \<Rightarrow> host \<Rightarrow> ed_ref \<Rightarrow> state \<Rightarrow> buffer_step \<times> state" where
  "createBufferIfUnknown c h e s =
     (let doc = document h e
      in if \<not> has (textDocumentToBufferId s) doc
         then (let s1 = s\<lparr>createBufferCalls := Suc (createBufferCalls s)\<rparr>
               in case createBuffer c (createBufferCalls s) of
                    Rejected \<Rightarrow> (Raised, s1)
                  | Resolved (Inl code) \<Rightarrow>
                      (Skipped, s1\<lparr>logged := logged s1 @ [CannotCreateBuffer code]\<rparr>)
                  | Resolved (Inr buf) \<Rightarrow>
                      (let s2 = initBufferForDocument h doc buf (Some e) s1
                       in (Ready, s2\<lparr>textDocumentToBufferId :=
                                        AList.update doc (Num buf) (textDocumentToBufferId s2)\<rparr>)))
         else (Ready, s))"

text \<open>Lines 307 to 320: the window of the editor, created when the editor has no column
  or its column has no window yet.\<close>

definition resolveWindow :: "client \<Rightarrow> host \<Rightarrow> ed_ref \<Rightarrow> state \<Rightarrow> (error + int option) \<times> state" where
  "resolveWindow c h e s =
     (case truthyColumn (viewColumn h e) of
        None \<Rightarrow>
          (case createNeovimWindow c s of
             (Inl err, s') \<Rightarrow> (Inl err, s')
           | (Inr winId, s') \<Rightarrow>
               (Inr (Some winId),
                s'\<lparr>noColumnEditorsToWinId := AList.update e winId (noColumnEditorsToWinId s')\<rparr>))
      | Some col \<Rightarrow>
          if \<not> has (editorColumnsToWinId s) col
          then (case createNeovimWindow c s of
                  (Inl err, s') \<Rightarrow> (Inl err, s')
                | (Inr winId, s') \<Rightarrow>
                    (Inr (Some winId),
                     s'\<lparr>editorColumnsToWinId := AList.update col winId (editorColumnsToWinId s')\<rparr>))
          else (Inr (map_of (editorColumnsToWinId s) col), s))"

text \<open>Lines 303 to 337, the body of the \<^verbatim>\<open>try\<close>: \<open>Some\<close> error is what it raises. The
  accumulator is the state, the requests queued and the columns kept.\<close>

type_synonym pass = "state \<times> request list \<times> int list"

fun tryAssignWindow :: "client \<Rightarrow> host \<Rightarrow> ed_ref \<Rightarrow> pass \<Rightarrow> error option \<times> pass" where
  "tryAssignWindow c h e (s, nvimRequests, keepViewColumns) =
     (let editorBufferId =
            (case map_of (textDocumentToBufferId s) (document h e) of
               Some b \<Rightarrow> VNum b | None \<Rightarrow> VUndefined)
      in case resolveWindow c h e s of
           (Inl err, s') \<Rightarrow> (Some err, (s', nvimRequests, keepViewColumns))
         | (Inr None, s') \<Rightarrow> (Some InvalidNeovimWindow, (s', nvimRequests, keepViewColumns))
         | (Inr (Some winId), s') \<Rightarrow>
             if winId = 0 then (Some InvalidNeovimWindow, (s', nvimRequests, keepViewColumns))
             else (None,
                   (s',
                    nvimRequests @
                      [(''nvim_win_set_buf'', [vint winId, editorBufferId]),
                       (''nvim_win_set_cursor'',
                          [vint winId, VArr [vint (fst (cursorPos h e)), vint (snd (cursorPos h e))]])],
                    (case truthyColumn (viewColumn h e) of
                       Some col \<Rightarrow> List.insert col keepViewColumns
                     | None \<Rightarrow> keepViewColumns))))"

text \<open>One round of the first loop (lines 275 to 342). What the \<^verbatim>\<open>try\<close> raises is caught
  and logged; a rejected request for the buffer of the document escapes the round.\<close>

fun syncVisibleEditor ::
  "client \<Rightarrow> host \<Rightarrow> ed_ref list \<Rightarrow> ed_ref \<Rightarrow> pass \<Rightarrow> outcome \<times> pass" where
  "syncVisibleEditor c h prevVisibleEditors e (s, nvimRequests, keepViewColumns) =
     (case createBufferIfUnknown c h e s of
        (Raised, s') \<Rightarrow> (Threw, (s', nvimRequests, keepViewColumns))
      | (Skipped, s') \<Rightarrow> (Returned, (s', nvimRequests, keepViewColumns))
      | (Ready, s') \<Rightarrow>
          if e \<in> set prevVisibleEditors then (Returned, (s', nvimRequests, keepViewColumns))
          else (case tryAssignWindow c h e (s', nvimRequests, keepViewColumns) of
                  (Some err, (s'', rs, keep)) \<Rightarrow>
                    (Returned, (s''\<lparr>logged := logged s'' @ [err]\<rparr>, rs, keep))
                | (None, acc') \<Rightarrow> (Returned, acc')))"

text \<open>One round of the second loop (lines 346 to 382).\<close>

fun closeNonVisible ::
  "host \<Rightarrow> ed_ref list \<Rightarrow> int list \<Rightarrow> ed_ref \<Rightarrow> state \<times> request list \<Rightarrow> state \<times> request list" where
  "closeNonVisible h currentVisibleEditors keepViewColumns p (s, nvimRequests) =
     (if p \<in> set currentVisibleEditors then (s, nvimRequests)
      else
        let doc = document h p;
            s1 = (if find (\<lambda>e. document h e = doc) currentVisibleEditors = None
                  then s\<lparr>textDocumentToBufferId := AList.delete doc (textDocumentToBufferId s)\<rparr>
                  else s)
        in case truthyColumn (viewColumn h p) of
             Some col \<Rightarrow>
               if col \<in> set keepViewColumns then (s1, nvimRequests)
               else (case map_of (editorColumnsToWinId s1) col of
                       None \<Rightarrow> (s1, nvimRequests)
                     | Some winId \<Rightarrow>
                         if winId = 0 then (s1, nvimRequests)
                         else (s1\<lparr>editorColumnsToWinId := AList.delete col (editorColumnsToWinId s1)\<rparr>,
                               nvimRequests @ [(''nvim_win_close'', [vint winId, VBool True])]))
           | None \<Rightarrow>
               (case map_of (noColumnEditorsToWinId s1) p of
                  None \<Rightarrow> (s1, nvimRequests)
                | Some winId \<Rightarrow>
                    if winId = 0 then (s1, nvimRequests)
                    else (s1\<lparr>noColumnEditorsToWinId := AList.delete p (noColumnEditorsToWinId s1)\<rparr>,
                          nvimRequests @ [(''nvim_win_close'', [vint winId, VBool True])])))"

declare tryAssignWindow.simps [simp del]
declare syncVisibleEditor.simps [simp del]
declare closeNonVisible.simps [simp del]

text \<open>The first loop over the editors still to visit: it ends where a round raises.\<close>

fun openLoop :: "client \<Rightarrow> host \<Rightarrow> ed_ref list \<Rightarrow> ed_ref list \<Rightarrow> pass \<Rightarrow> outcome \<times> pass" where
  "openLoop c h prevVisibleEditors [] acc = (Returned, acc)"
| "openLoop c h prevVisibleEditors (e # es) acc =
     (case syncVisibleEditor c h prevVisibleEditors e acc of
        (Threw, acc') \<Rightarrow> (Threw, acc')
      | (Returned, acc') \<Rightarrow> openLoop c h prevVisibleEditors es acc')"

text \<open>The first loop over the visible editors, from an empty queue and nothing kept.\<close>

definition openWindows :: "client \<Rightarrow> host \<Rightarrow> state \<Rightarrow> outcome \<times> pass" where
  "openWindows c h s = openLoop c h (openedEditors s) (visibleTextEditors h) (s, [], [])"

text \<open>The second loop over the previous snapshot, from where the first loop ended.\<close>

fun closeWindows :: "host \<Rightarrow> ed_ref list \<Rightarrow> pass \<Rightarrow> state \<times> request list" where
  "closeWindows h prevVisibleEditors (s1, nvimRequests, keepViewColumns) =
     fold (closeNonVisible h (visibleTextEditors h) keepViewColumns) prevVisibleEditors
       (s1, nvimRequests)"

text \<open>The end of a pass (lines 383 to 390): the batch, the new snapshot, the readiness
  promise resolved and cleared.\<close>

fun issueBatch :: "host \<Rightarrow> state \<times> request list \<Rightarrow> state" where
  "issueBatch h (s2, nvimRequests) =
     (callAtomic nvimRequests s2)
       \<lparr>openedEditors := visibleTextEditors h, changeLayoutPromise := False\<rparr>"

text \<open>One pass of \<^verbatim>\<open>syncLayout\<close>, the function that \<^verbatim>\<open>debounce\<close> wraps. When the first loop
  raises, the pass ends there with the state as it is: nothing is closed, no batch is
  issued, the snapshot and the readiness promise stay.\<close>

definition syncLayout :: "client \<Rightarrow> host \<Rightarrow> state \<Rightarrow> outcome \<times> state" where
  "syncLayout c h s =
     (case openWindows c h s of
        (Threw, acc) \<Rightarrow> (Threw, fst acc)
      | (Returned, acc) \<Rightarrow> (Returned, issueBatch h (closeWindows h (openedEditors s) acc)))"

text \<open>The columns the first loop recorded as kept in this pass.\<close>

definition keptColumns :: "client \<Rightarrow> host \<Rightarrow> state \<Rightarrow> int list" where
  "keptColumns c h s = snd (snd (snd (openWindows c h s)))"

text \<open>The notification itself only creates the readiness promise, when there is none,
  and calls the debounced function.\<close>

definition onDidChangeVisibleTextEditors :: "state \<Rightarrow> state" where
  "onDidChangeVisibleTextEditors s = s\<lparr>changeLayoutPromise := True\<rparr>"

text \<open>The body of \<^verbatim>\<open>syncActiveEditor\<close> once the readiness promise, if any, is resolved.\<close>

definition syncActiveEditor :: "host \<Rightarrow> state \<Rightarrow> state" where
  "syncActiveEditor h s =
     (case activeTextEditor h of
        None \<Rightarrow> s
      | Some activeEditor \<Rightarrow>
          (case (case truthyColumn (viewColumn h activeEditor) of
                   Some col \<Rightarrow> map_of (editorColumnsToWinId s) col
                 | None \<Rightarrow> map_of (noColumnEditorsToWinId s) activeEditor) of
             None \<Rightarrow> s\<lparr>logged := logged s @ [UnableToDetermineWindow]\<rparr>
           | Some winId \<Rightarrow>
               if winId = 0 then s\<lparr>logged := logged s @ [UnableToDetermineWindow]\<rparr>
               else s\<lparr>issued := issued s @ [[(''nvim_set_current_win'', [vint winId])]]\<rparr>))"

section \<open>Requests of the backend\<close>

text \<open>
  The close mode of \<^verbatim>\<open>open-file\<close> is a number or \<^verbatim>\<open>"all"\<close>; the arguments of
  \<^verbatim>\<open>external-buffer\<close> are the name, the id as a string, the expand-tab flag, the tab
  stop and the jump flag. A request of another name is ignored by the \<^verbatim>\<open>switch\<close>.
\<close>

datatype close_mode = CloseNum int | CloseAll

datatype ext_request =
    OpenFile string close_mode
  | ExternalBuffer string string int int int
  | OtherRequest string

text \<open>The calls made to the host editor, in the order they are made.
  \<open>ShowTextDocumentOptions\<close> is the call with an options object (column,
  \<^verbatim>\<open>preserveFocus\<close>, \<^verbatim>\<open>preview\<close>).\<close>

datatype host_call =
    OpenTextDocument "string option"
  | OpenTextDocumentUri string
  | ExecuteCommand string
  | ShowTextDocument doc_ref "int option"
  | ShowTextDocumentOptions doc_ref "int option" bool bool

text \<open>What \<^verbatim>\<open>openTextDocument\<close> is called with: nothing for the name that asks for a new
  document, else the name trimmed.\<close>

definition openArg :: "string \<Rightarrow> string option" where
  "openArg fileName = (if fileName = ''__vscode_new__'' then None else Some (trim fileName))"

text \<open>Lines 174 to 178: \<^verbatim>\<open>close && close !== "all" && currEditor\<close> holds for a number other
  than 0 when there is an active editor; then the column of that editor is taken and
  the editor closed. The result is how the step ends, the column to show the document
  in, and the calls made.\<close>

definition closeCurrent ::
  "host \<Rightarrow> close_mode \<Rightarrow> ed_ref option \<Rightarrow> outcome \<times> int option \<times> host_call list" where
  "closeCurrent h close currEditor =
     (case (close, currEditor) of
        (CloseNum n, Some e) \<Rightarrow>
          if n \<noteq> 0
          then (case executeCommand h ''workbench.action.revertAndCloseActiveEditor'' of
                  Rejected \<Rightarrow>
                    (Threw, viewColumn h e,
                     [ExecuteCommand ''workbench.action.revertAndCloseActiveEditor''])
                | Resolved u \<Rightarrow>
                    (Returned, viewColumn h e,
                     [ExecuteCommand ''workbench.action.revertAndCloseActiveEditor'']))
          else (Returned, None, [])
      | _ \<Rightarrow> (Returned, None, []))"

text \<open>Lines 180 to 182: with the close mode \<^verbatim>\<open>"all"\<close> the other editors are closed.\<close>

definition closeOthers :: "host \<Rightarrow> close_mode \<Rightarrow> outcome \<times> host_call list" where
  "closeOthers h close =
     (if close = CloseAll
      then (case executeCommand h ''workbench.action.closeOtherEditors'' of
              Rejected \<Rightarrow> (Threw, [ExecuteCommand ''workbench.action.closeOtherEditors''])
            | Resolved u \<Rightarrow> (Returned, [ExecuteCommand ''workbench.action.closeOtherEditors'']))
      else (Returned, []))"

text \<open>The \<^verbatim>\<open>open-file\<close> case. Nothing is caught here: a rejected call ends the handler.\<close>

definition openFile ::
  "host \<Rightarrow> string \<Rightarrow> close_mode \<Rightarrow> state \<Rightarrow> outcome \<times> host_call list \<times> state" where
  "openFile h fileName close s =
     (let currEditor = activeTextEditor h;
          arg = openArg fileName
      in case openTextDocument h arg of
           Rejected \<Rightarrow> (Threw, [OpenTextDocument arg], s)
         | Resolved None \<Rightarrow> (Returned, [OpenTextDocument arg], s)
         | Resolved (Some doc) \<Rightarrow>
             (case closeCurrent h close currEditor of
                (Threw, col, closing) \<Rightarrow> (Threw, [OpenTextDocument arg] @ closing, s)
              | (Returned, col, closing) \<Rightarrow>
                  (let calls = [OpenTextDocument arg] @ closing @ [ShowTextDocument doc col]
                   in case showTextDocument h doc col of
                        Rejected \<Rightarrow> (Threw, calls, s)
                      | Resolved editor \<Rightarrow>
                          (case closeOthers h close of
                             (outcome, closing') \<Rightarrow> (outcome, calls @ closing', s)))))"

text \<open>\<^verbatim>\<open>attachNeovimExternalBuffer\<close>: its body is commented out.\<close>

definition attachNeovimExternalBuffer :: "string \<Rightarrow> jsnum \<Rightarrow> bool \<Rightarrow> int \<Rightarrow> state \<Rightarrow> state" where
  "attachNeovimExternalBuffer name bufId expandTab tabStop s = s"

text \<open>Lines 196 to 200: the open document of that URI, or the document opened for it.
  \<open>None\<close> when \<^verbatim>\<open>Uri.parse\<close> raises, before any call of the host, or when opening the
  document is rejected.\<close>

definition findOrOpen :: "host \<Rightarrow> string \<Rightarrow> doc_ref option \<times> host_call list" where
  "findOrOpen h name =
     (case find (\<lambda>d. uri h d = name) (textDocuments h) of
        Some d \<Rightarrow> (Some d, [])
      | None \<Rightarrow>
          if \<not> uriParses h name then (None, [])
          else (case openTextDocumentUri h name of
                  Rejected \<Rightarrow> (None, [OpenTextDocumentUri name])
                | Resolved d \<Rightarrow> (Some d, [OpenTextDocumentUri name])))"

text \<open>Lines 201 to 213: \<open>buffers\<close> is the backend's answer to \<^verbatim>\<open>client.buffers\<close> (the ids of
  its buffers). The result is \<open>None\<close> when that raises, else whether the tab options
  are to be forced, and the state.\<close>

definition assignMapping ::
  "host \<Rightarrow> int list reply \<Rightarrow> doc_ref \<Rightarrow> jsnum \<Rightarrow> state \<Rightarrow> (bool \<times> state) option" where
  "assignMapping h buffers doc bufId s =
     (if \<not> has (textDocumentToBufferId s) doc
      then (case buffers of
              Rejected \<Rightarrow> None
            | Resolved bs \<Rightarrow>
                (let buf = find (\<lambda>b. Num b = bufId) bs;
                     s1 = (case buf of
                             Some b \<Rightarrow> initBufferForDocument h doc b None s
                           | None \<Rightarrow> s)
                 in Some (buf \<noteq> None,
                          s1\<lparr>textDocumentToBufferId :=
                                AList.update doc bufId (textDocumentToBufferId s1)\<rparr>)))
      else Some (False, s))"

text \<open>The column the document of a jump is shown in: that of the active editor, or
  \<^verbatim>\<open>ViewColumn.Active\<close> (\<open>-1\<close>) without one.\<close>

definition jumpColumn :: "host \<Rightarrow> int option" where
  "jumpColumn h = (case activeTextEditor h of Some a \<Rightarrow> viewColumn h a | None \<Rightarrow> Some (- 1))"

text \<open>The \<^verbatim>\<open>external-buffer\<close> case. Everything inside the \<^verbatim>\<open>try\<close> that raises is caught and
  dropped: the handler returns with what was done so far.\<close>

definition externalBuffer ::
  "host \<Rightarrow> int list reply \<Rightarrow> string \<Rightarrow> string \<Rightarrow> int \<Rightarrow> int \<Rightarrow> int \<Rightarrow> state \<Rightarrow>
   outcome \<times> host_call list \<times> state" where
  "externalBuffer h buffers name idStr expandTab tabStop isJumping s =
     (let bufId = parseInt idStr
      in if \<not> uriShaped name
         then (Returned, [], attachNeovimExternalBuffer name bufId (expandTab \<noteq> 0) tabStop s)
         else if isJumping \<noteq> 0 \<and> name \<noteq> []
         then (case findOrOpen h name of
                 (None, calls) \<Rightarrow> (Returned, calls, s)
               | (Some doc, calls) \<Rightarrow>
                   (case assignMapping h buffers doc bufId s of
                      None \<Rightarrow> (Returned, calls, s)
                    | Some (forceTabOptions, s1) \<Rightarrow>
                        (let col = jumpColumn h;
                             calls' = calls @ [ShowTextDocumentOptions doc col False False]
                         in case showTextDocument h doc col of
                              Rejected \<Rightarrow> (Returned, calls', s1)
                            | Resolved editor \<Rightarrow>
                                (Returned, calls',
                                 if forceTabOptions
                                 then resyncBufferTabOptions h editor bufId s1
                                 else s1))))
         else (Returned, [], s))"

fun handleExtensionRequest ::
  "host \<Rightarrow> int list reply \<Rightarrow> ext_request \<Rightarrow> state \<Rightarrow> outcome \<times> host_call list \<times> state" where
  "handleExtensionRequest h buffers (OpenFile fileName close) s = openFile h fileName close s"
| "handleExtensionRequest h buffers (ExternalBuffer name idStr expandTab tabStop isJumping) s =
     externalBuffer h buffers name idStr expandTab tabStop isJumping s"
| "handleExtensionRequest h buffers (OtherRequest name) s = (Returned, [], s)"

text \<open>
  Modelled from the spec: the host editor's commands are the editor's own, not this
  module's. Of the interface to the host editor (show a document in a given or new
  column, close active editor, close all other editors) the model keeps the open
  editors as documents with their columns, the active one first: showing a document
  puts its editor first, closing the active editor drops the first, closing the
  others keeps the first only; opening a document shows nothing.
\<close>

type_synonym host_editors = "(doc_ref \<times> int option) list"

fun hostCall :: "host_call \<Rightarrow> host_editors \<Rightarrow> host_editors" where
  "hostCall (ShowTextDocument doc col) eds = (doc, col) # removeAll (doc, col) eds"
| "hostCall (ShowTextDocumentOptions doc col pf pv) eds = (doc, col) # removeAll (doc, col) eds"
| "hostCall (ExecuteCommand cmd) eds =
     (if cmd = ''workbench.action.revertAndCloseActiveEditor'' then tl eds
      else if cmd = ''workbench.action.closeOtherEditors'' then take 1 eds
      else eds)"
| "hostCall (OpenTextDocument arg) eds = eds"
| "hostCall (OpenTextDocumentUri name) eds = eds"

section \<open>Runs of the manager\<close>

text \<open>The notifications and requests that change the maps, each with what the host and
  the backend answer while it is handled. A run handles them one after the other; a
  handler that raises leaves the state it had reached.\<close>

datatype event =
    LayoutPass host
  | DocumentClosed doc_ref
  | RedrawBatch "redraw_event list"
  | ExtensionRequest host "int list reply" ext_request

fun step :: "client \<Rightarrow> event \<Rightarrow> state \<Rightarrow> state" where
  "step c (LayoutPass h) s = snd (syncLayout c h s)"
| "step c (DocumentClosed d) s = onDidCloseTextDocument d s"
| "step c (RedrawBatch batch) s = handleRedrawBatch batch s"
| "step c (ExtensionRequest h buffers req) s = snd (snd (handleExtensionRequest h buffers req s))"

definition run :: "client \<Rightarrow> event list \<Rightarrow> state \<Rightarrow> state" where
  "run c evs s = fold (step c) evs s"

text \<open>The backend never answers two \<^verbatim>\<open>openWindow\<close> calls with the same window.\<close>

definition freshWindows :: "client \<Rightarrow> bool" where
  "freshWindows c =
     (\<forall>i j w. openWindow c i = Resolved (Inr w) \<and> openWindow c j = Resolved (Inr w) \<longrightarrow> i = j)"

definition windowIds :: "state \<Rightarrow> int list" where
  "windowIds s = map snd (editorColumnsToWinId s) @ map snd (noColumnEditorsToWinId s)"

text \<open>Every window id in the two window maps is the answer to an \<^verbatim>\<open>openWindow\<close> call made
  so far.\<close>

definition windowsCreated :: "client \<Rightarrow> state \<Rightarrow> bool" where
  "windowsCreated c s = (\<forall>w\<in>set (windowIds s). \<exists>i<openWindowCalls s. openWindow c i = Resolved (Inr w))"

definition windowsUnique :: "client \<Rightarrow> state \<Rightarrow> bool" where
  "windowsUnique c s =
     (distinct (map fst (editorColumnsToWinId s)) \<and>
      distinct (map fst (noColumnEditorsToWinId s)) \<and>
      distinct (windowIds s) \<and> windowsCreated c s)"

definition mapsUnique :: "client \<Rightarrow> state \<Rightarrow> bool" where
  "mapsUnique c s = (distinct (map fst (textDocumentToBufferId s)) \<and> windowsUnique c s)"

section \<open>An example layout\<close>

text \<open>
  Editors 1 and 2 show documents 10 and 20 in columns 1 and 2; editor 3 shows document
  10 outside the columns. The backend numbers its buffers from 1 and its windows from
  1000.
\<close>

definition exampleClient :: client where
  "exampleClient =
     \<lparr> createBuffer = (\<lambda>n. Resolved (Inr (int n + 1))),
       openWindow = (\<lambda>n. Resolved (Inr (int n + 1000))) \<rparr>"

definition exampleHost :: host where
  "exampleHost =
     \<lparr> visibleTextEditors = [1, 2, 3], activeTextEditor = Some 1, textDocuments = [10, 20],
       viewColumn = (\<lambda>e. if e = 1 then Some 1 else if e = 2 then Some 2 else None),
       document = (\<lambda>e. if e = 2 then 20 else 10),
       insertSpaces = (\<lambda>e. e = 1), tabSize = (\<lambda>e. 2), cursorPos = (\<lambda>e. (1, 0)),
       uri = (\<lambda>d. if d = 10 then ''file:///A.txt'' else ''file:///B.txt''),
       eol = (\<lambda>d. if d = 10 then LF else CRLF),
       getText = (\<lambda>d. if d = 10 then [CHR ''a'', CHR 0x0A, CHR ''b'']
                         else [CHR ''c'', CHR 0x0D, CHR 0x0A]),
       openTextDocument = (\<lambda>n. Resolved (Some 30)),
       uriParses = (\<lambda>n. True),
       openTextDocumentUri = (\<lambda>n. Resolved 30),
       showTextDocument = (\<lambda>d c. Resolved 4),
       executeCommand = (\<lambda>cmd. Resolved ()) \<rparr>"




text \<open>The state after the first pass over that layout, but for the batches issued.\<close>

definition exampleState :: state where
  "exampleState =
     \<lparr> changeLayoutPromise = False, openedEditors = [1, 2, 3],
       textDocumentToBufferId = [(10, Num 1), (20, Num 3)],
       editorColumnsToWinId = [(1, 1000), (2, 1001)],
       noColumnEditorsToWinId = [(3, 1002)], grids = [], issued = [], logged = [],
       createBufferCalls = 5, openWindowCalls = 3, bufferInits = [(1, 10), (3, 20)],
       listening = [1, 3] \<rparr>"

section \<open>The redraw handler touches the grid map only\<close>

lemma map_of_fold_update:
  "map_of (fold (\<lambda>(grid, win) g'. AList.update grid win g') args g) =
   fold (\<lambda>(grid, win) m'. m'(grid \<mapsto> win)) args (map_of g)"
  by (induction args arbitrary: g) (auto simp: update_conv')

lemma map_of_fold_delete:
  "map_of (fold (\<lambda>(grid, win) g'. AList.delete grid g') args g) =
   fold (\<lambda>(grid, win) m'. m'(grid := None)) args (map_of g)"
  by (induction args arbitrary: g) (auto simp: delete_conv')

text \<open>
  C10. A redraw batch changes nothing but the grid map: the state after it is the state
  before with the \<open>grids\<close> field replaced, so the Document-to-Buffer, Column-to-Window
  and Editor-to-Window maps and the previous snapshot are as before. A batch is handled
  event by event. On the grid map, read as a partial function, the tuples of a
  \<^verbatim>\<open>win_pos\<close> or \<^verbatim>\<open>win_external_pos\<close> event each store the window id under their grid
  (inserting or overwriting), the tuples of a \<^verbatim>\<open>win_close\<close> event each remove the entry of
  their grid and no other, and an event of any other name leaves the state as it is.
\<close>

theorem handleRedrawBatch_frame:
  "handleRedrawBatch batch s = s\<lparr>grids := grids (handleRedrawBatch batch s)\<rparr>
   \<and> textDocumentToBufferId (handleRedrawBatch batch s) = textDocumentToBufferId s
   \<and> editorColumnsToWinId (handleRedrawBatch batch s) = editorColumnsToWinId s
   \<and> noColumnEditorsToWinId (handleRedrawBatch batch s) = noColumnEditorsToWinId s
   \<and> openedEditors (handleRedrawBatch batch s) = openedEditors s
   \<and> handleRedrawBatch (batch @ batch') s = handleRedrawBatch batch' (handleRedrawBatch batch s)
   \<and> map_of (grids (handleRedrawBatch [(''win_pos'', args)] s)) =
       fold (\<lambda>(grid, win) m. m(grid \<mapsto> win)) args (map_of (grids s))
   \<and> map_of (grids (handleRedrawBatch [(''win_external_pos'', args)] s)) =
       fold (\<lambda>(grid, win) m. m(grid \<mapsto> win)) args (map_of (grids s))
   \<and> map_of (grids (handleRedrawBatch [(''win_close'', args)] s)) =
       fold (\<lambda>(grid, win) m. m(grid := None)) args (map_of (grids s))
   \<and> handleRedrawBatch [(name, args)] s =
       (if name = ''win_pos'' \<or> name = ''win_external_pos'' \<or> name = ''win_close''
        then handleRedrawBatch [(name, args)] s else s)"
  by (simp add: handleRedrawBatch_def map_of_fold_update map_of_fold_delete)


section \<open>The example, computed\<close>

lemmas pass_defs =
  syncLayout_def openWindows_def keptColumns_def
  syncVisibleEditor.simps tryAssignWindow.simps resolveWindow_def createNeovimWindow_def
  createBufferIfUnknown_def has_def callAtomic_def initBufferForDocument_def
  closeNonVisible.simps

text \<open>The first pass over the example layout gives the example state.\<close>

lemma example_first_pass:
  "syncLayout exampleClient exampleHost initial =
     (Returned,
      exampleState\<lparr>issued := issued (snd (syncLayout exampleClient exampleHost initial))\<rparr>)"
  by (simp add: pass_defs exampleHost_def exampleClient_def exampleState_def initial_def)

section \<open>The second loop: closing what is no longer visible\<close>

lemma closeNonVisible_tdb:
  "textDocumentToBufferId (fst (closeNonVisible h cur keep p (s, rs))) =
     (if p \<notin> set cur \<and> find (\<lambda>e. document h e = document h p) cur = None
      then AList.delete (document h p) (textDocumentToBufferId s)
      else textDocumentToBufferId s)"
  by (auto simp: closeNonVisible.simps Let_def split: option.splits)

lemma closeNonVisible_cols:
  "editorColumnsToWinId (fst (closeNonVisible h cur keep p (s, rs))) =
     (case truthyColumn (viewColumn h p) of
        None \<Rightarrow> editorColumnsToWinId s
      | Some col \<Rightarrow>
          (case map_of (editorColumnsToWinId s) col of
             None \<Rightarrow> editorColumnsToWinId s
           | Some w \<Rightarrow>
               if p \<notin> set cur \<and> col \<notin> set keep \<and> w \<noteq> 0
               then AList.delete col (editorColumnsToWinId s)
               else editorColumnsToWinId s))"
  by (auto simp: closeNonVisible.simps Let_def split: option.splits)

lemma closeNonVisible_nocol:
  "noColumnEditorsToWinId (fst (closeNonVisible h cur keep p (s, rs))) =
     (case truthyColumn (viewColumn h p) of
        Some col \<Rightarrow> noColumnEditorsToWinId s
      | None \<Rightarrow>
          (case map_of (noColumnEditorsToWinId s) p of
             None \<Rightarrow> noColumnEditorsToWinId s
           | Some w \<Rightarrow>
               if p \<notin> set cur \<and> w \<noteq> 0
               then AList.delete p (noColumnEditorsToWinId s)
               else noColumnEditorsToWinId s))"
  by (auto simp: closeNonVisible.simps Let_def split: option.splits)

lemma closeNonVisible_requests:
  "snd (closeNonVisible h cur keep p (s, rs)) =
     rs @ (if p \<in> set cur then []
           else case truthyColumn (viewColumn h p) of
                  Some col \<Rightarrow>
                    (case map_of (editorColumnsToWinId s) col of
                       None \<Rightarrow> []
                     | Some w \<Rightarrow> if col \<notin> set keep \<and> w \<noteq> 0 then [(''nvim_win_close'', [vint w, VBool True])] else [])
                | None \<Rightarrow>
                    (case map_of (noColumnEditorsToWinId s) p of
                       None \<Rightarrow> []
                     | Some w \<Rightarrow> if w \<noteq> 0 then [(''nvim_win_close'', [vint w, VBool True])] else []))"
  by (auto simp: closeNonVisible.simps Let_def split: option.splits)

lemma closeNonVisible_rest:
  "openWindowCalls (fst (closeNonVisible h cur keep p (s, rs))) = openWindowCalls s"
  "createBufferCalls (fst (closeNonVisible h cur keep p (s, rs))) = createBufferCalls s"
  "issued (fst (closeNonVisible h cur keep p (s, rs))) = issued s"
  "logged (fst (closeNonVisible h cur keep p (s, rs))) = logged s"
  "grids (fst (closeNonVisible h cur keep p (s, rs))) = grids s"
  by (auto simp: closeNonVisible.simps Let_def split: option.splits)

lemmas closeNonVisible_fields =
  closeNonVisible_tdb closeNonVisible_cols closeNonVisible_nocol closeNonVisible_requests










section \<open>What creating buffers and windows leaves alone\<close>

lemma createNeovimWindow_maps:
  "textDocumentToBufferId (snd (createNeovimWindow c s)) = textDocumentToBufferId s"
  "editorColumnsToWinId (snd (createNeovimWindow c s)) = editorColumnsToWinId s"
  "noColumnEditorsToWinId (snd (createNeovimWindow c s)) = noColumnEditorsToWinId s"
  "openedEditors (snd (createNeovimWindow c s)) = openedEditors s"
  "grids (snd (createNeovimWindow c s)) = grids s"
  by (simp_all add: createNeovimWindow_def callAtomic_def Let_def split: sum.splits reply.splits)

lemma createNeovimWindow_calls:
  "openWindowCalls s \<le> openWindowCalls (snd (createNeovimWindow c s))"
  by (simp add: createNeovimWindow_def callAtomic_def Let_def split: sum.splits reply.splits)

lemma createNeovimWindow_Inr:
  "fst (createNeovimWindow c s) = Inr w \<Longrightarrow>
   openWindow c (openWindowCalls s) = Resolved (Inr w) \<and>
   openWindowCalls (snd (createNeovimWindow c s)) = Suc (openWindowCalls s)"
  by (simp add: createNeovimWindow_def callAtomic_def Let_def split: sum.splits reply.splits)

lemma createBufferIfUnknown_maps:
  "editorColumnsToWinId (snd (createBufferIfUnknown c h e s)) = editorColumnsToWinId s"
  "noColumnEditorsToWinId (snd (createBufferIfUnknown c h e s)) = noColumnEditorsToWinId s"
  "openWindowCalls (snd (createBufferIfUnknown c h e s)) = openWindowCalls s"
  "openedEditors (snd (createBufferIfUnknown c h e s)) = openedEditors s"
  "grids (snd (createBufferIfUnknown c h e s)) = grids s"
  by (simp_all add: createBufferIfUnknown_def initBufferForDocument_def callAtomic_def Let_def
      split: sum.splits reply.splits)

lemma createBufferIfUnknown_tdb:
  "textDocumentToBufferId (snd (createBufferIfUnknown c h e s)) = textDocumentToBufferId s \<or>
   (\<exists>b. textDocumentToBufferId (snd (createBufferIfUnknown c h e s)) =
        AList.update (document h e) b (textDocumentToBufferId s))"
  by (auto simp: createBufferIfUnknown_def initBufferForDocument_def callAtomic_def Let_def
      split: sum.splits reply.splits)

lemma createNeovimWindow_eqD:
  assumes "createNeovimWindow c s = (r, s')"
  shows "textDocumentToBufferId s' = textDocumentToBufferId s"
    and "editorColumnsToWinId s' = editorColumnsToWinId s"
    and "noColumnEditorsToWinId s' = noColumnEditorsToWinId s"
    and "openedEditors s' = openedEditors s"
    and "grids s' = grids s"
    and "openWindowCalls s \<le> openWindowCalls s'"
  using createNeovimWindow_maps [of c s] createNeovimWindow_calls [of s c] assms by simp_all

lemma resolveWindow_tdb:
  "textDocumentToBufferId (snd (resolveWindow c h e s)) = textDocumentToBufferId s"
  "openedEditors (snd (resolveWindow c h e s)) = openedEditors s"
  "grids (snd (resolveWindow c h e s)) = grids s"
  by (auto simp: resolveWindow_def split: option.splits prod.splits sum.splits
      dest: createNeovimWindow_eqD)

section \<open>Window ids stay unique\<close>

lemma snd_update_subset: "set (map snd (AList.update k v al)) \<subseteq> insert v (set (map snd al))"
  by (induction al) auto

lemma distinct_snd_update:
  "distinct (map snd al) \<Longrightarrow> v \<notin> snd ` set al \<Longrightarrow> distinct (map snd (AList.update k v al))"
proof (induction al)
  case Nil
  then show ?case by simp
next
  case (Cons a al)
  have "set (map snd (AList.update k v al)) \<subseteq> insert v (set (map snd al))"
    by (rule snd_update_subset)
  with Cons show ?case by (cases a) auto
qed

lemma snd_delete_subset: "set (map snd (AList.delete k al)) \<subseteq> set (map snd al)"
  by (auto simp: AList.delete_eq)

lemma distinct_snd_delete: "distinct (map snd al) \<Longrightarrow> distinct (map snd (AList.delete k al))"
  by (simp add: AList.delete_eq distinct_map_filter)

lemma windowsUnique_cong:
  "editorColumnsToWinId s' = editorColumnsToWinId s \<Longrightarrow>
   noColumnEditorsToWinId s' = noColumnEditorsToWinId s \<Longrightarrow>
   openWindowCalls s \<le> openWindowCalls s' \<Longrightarrow>
   windowsUnique c s \<Longrightarrow> windowsUnique c s'"
  unfolding windowsUnique_def windowsCreated_def windowIds_def
  by simp (meson less_le_trans)

lemma fresh_not_in:
  assumes "freshWindows c" "windowsCreated c s" "openWindow c (openWindowCalls s) = Resolved (Inr w)"
  shows "w \<notin> set (windowIds s)"
proof
  assume "w \<in> set (windowIds s)"
  then obtain i where "i < openWindowCalls s" "openWindow c i = Resolved (Inr w)"
    using assms(2) unfolding windowsCreated_def by blast
  then show False
    using assms(1,3) unfolding freshWindows_def by (metis less_irrefl)
qed

lemma distinct_append_left:
  "distinct (xs @ ys) \<Longrightarrow> distinct xs' \<Longrightarrow> set xs' \<subseteq> insert w (set xs) \<Longrightarrow> w \<notin> set ys \<Longrightarrow>
   distinct (xs' @ ys)"
  by auto

lemma distinct_append_right:
  "distinct (xs @ ys) \<Longrightarrow> distinct ys' \<Longrightarrow> set ys' \<subseteq> insert w (set ys) \<Longrightarrow> w \<notin> set xs \<Longrightarrow>
   distinct (xs @ ys')"
  by auto

lemma windowsCreated_step:
  assumes "windowsCreated c s"
    and "set (windowIds s') \<subseteq> insert w (set (windowIds s))"
    and "openWindow c (openWindowCalls s) = Resolved (Inr w)"
    and "openWindowCalls s' = Suc (openWindowCalls s)"
  shows "windowsCreated c s'"
  unfolding windowsCreated_def
proof
  fix x assume "x \<in> set (windowIds s')"
  then have "x = w \<or> x \<in> set (windowIds s)"
    using assms(2) by auto
  then show "\<exists>i<openWindowCalls s'. openWindow c i = Resolved (Inr x)"
    using assms(1,3,4) unfolding windowsCreated_def by (metis less_Suc_eq)
qed

lemma windowsUnique_new_column:
  assumes "freshWindows c" "windowsUnique c s" "openWindow c (openWindowCalls s) = Resolved (Inr w)"
    and cols: "editorColumnsToWinId s' = AList.update col w (editorColumnsToWinId s)"
    and nocol: "noColumnEditorsToWinId s' = noColumnEditorsToWinId s"
    and calls: "openWindowCalls s' = Suc (openWindowCalls s)"
  shows "windowsUnique c s'"
proof -
  let ?xs = "map snd (editorColumnsToWinId s)" and ?ys = "map snd (noColumnEditorsToWinId s)"
  let ?xs' = "map snd (editorColumnsToWinId s')"
  have dist: "distinct (?xs @ ?ys)" and created: "windowsCreated c s"
    using assms(2) unfolding windowsUnique_def windowIds_def by simp_all
  have notin: "w \<notin> set (?xs @ ?ys)"
    using fresh_not_in [OF assms(1) created assms(3)] unfolding windowIds_def .
  have sub: "set ?xs' \<subseteq> insert w (set ?xs)"
    unfolding cols by (rule snd_update_subset)
  have nx: "w \<notin> snd ` set (editorColumnsToWinId s)" and ny: "w \<notin> set ?ys"
    using notin by simp_all
  have dx: "distinct ?xs" using dist by simp
  have "distinct ?xs'"
    unfolding cols using dx nx by (rule distinct_snd_update)
  with dist have "distinct (?xs' @ ?ys)"
    using sub ny by (rule distinct_append_left)
  then have d: "distinct (windowIds s')"
    unfolding windowIds_def nocol .
  have "set (windowIds s') \<subseteq> insert w (set (windowIds s))"
    using sub unfolding windowIds_def nocol by auto
  with created have "windowsCreated c s'"
    using assms(3) calls by (rule windowsCreated_step)
  then show ?thesis
    using assms(2) d unfolding windowsUnique_def cols nocol by (simp add: distinct_update)
qed

lemma windowsUnique_new_columnless:
  assumes "freshWindows c" "windowsUnique c s" "openWindow c (openWindowCalls s) = Resolved (Inr w)"
    and nocol: "noColumnEditorsToWinId s' = AList.update e w (noColumnEditorsToWinId s)"
    and cols: "editorColumnsToWinId s' = editorColumnsToWinId s"
    and calls: "openWindowCalls s' = Suc (openWindowCalls s)"
  shows "windowsUnique c s'"
proof -
  let ?xs = "map snd (editorColumnsToWinId s)" and ?ys = "map snd (noColumnEditorsToWinId s)"
  let ?ys' = "map snd (noColumnEditorsToWinId s')"
  have dist: "distinct (?xs @ ?ys)" and created: "windowsCreated c s"
    using assms(2) unfolding windowsUnique_def windowIds_def by simp_all
  have notin: "w \<notin> set (?xs @ ?ys)"
    using fresh_not_in [OF assms(1) created assms(3)] unfolding windowIds_def .
  have sub: "set ?ys' \<subseteq> insert w (set ?ys)"
    unfolding nocol by (rule snd_update_subset)
  have ny: "w \<notin> snd ` set (noColumnEditorsToWinId s)" and nx: "w \<notin> set ?xs"
    using notin by simp_all
  have dy: "distinct ?ys" using dist by simp
  have "distinct ?ys'"
    unfolding nocol using dy ny by (rule distinct_snd_update)
  with dist have "distinct (?xs @ ?ys')"
    using sub nx by (rule distinct_append_right)
  then have d: "distinct (windowIds s')"
    unfolding windowIds_def cols .
  have "set (windowIds s') \<subseteq> insert w (set (windowIds s))"
    using sub unfolding windowIds_def cols by auto
  with created have "windowsCreated c s'"
    using assms(3) calls by (rule windowsCreated_step)
  then show ?thesis
    using assms(2) d unfolding windowsUnique_def cols nocol by (simp add: distinct_update)
qed

lemma windowsUnique_smaller:
  assumes "windowsUnique c s"
    and "distinct (map fst (editorColumnsToWinId s'))"
    and "distinct (map fst (noColumnEditorsToWinId s'))"
    and "distinct (map snd (editorColumnsToWinId s'))"
    and "distinct (map snd (noColumnEditorsToWinId s'))"
    and "set (map snd (editorColumnsToWinId s')) \<subseteq> set (map snd (editorColumnsToWinId s))"
    and "set (map snd (noColumnEditorsToWinId s')) \<subseteq> set (map snd (noColumnEditorsToWinId s))"
    and "openWindowCalls s' = openWindowCalls s"
  shows "windowsUnique c s'"
proof -
  let ?xs = "map snd (editorColumnsToWinId s)" and ?ys = "map snd (noColumnEditorsToWinId s)"
  let ?xs' = "map snd (editorColumnsToWinId s')" and ?ys' = "map snd (noColumnEditorsToWinId s')"
  have "set ?xs \<inter> set ?ys = {}"
    using assms(1) unfolding windowsUnique_def windowIds_def distinct_append by blast
  then have "set ?xs' \<inter> set ?ys' = {}"
    using assms(6,7) by blast
  then have "distinct (windowIds s')"
    using assms(4,5) unfolding windowIds_def distinct_append by blast
  moreover have "windowsCreated c s'"
    unfolding windowsCreated_def
  proof
    fix x assume "x \<in> set (windowIds s')"
    then have "x \<in> set (windowIds s)"
      using assms(6,7) unfolding windowIds_def set_append by blast
    then show "\<exists>i<openWindowCalls s'. openWindow c i = Resolved (Inr x)"
      using assms(1) unfolding windowsUnique_def windowsCreated_def assms(8) by blast
  qed
  ultimately show ?thesis
    using assms(2,3) unfolding windowsUnique_def by simp
qed

lemma windowsUnique_delete_column:
  assumes "windowsUnique c s"
    and "editorColumnsToWinId s' = AList.delete col (editorColumnsToWinId s)"
    and "noColumnEditorsToWinId s' = noColumnEditorsToWinId s"
    and "openWindowCalls s' = openWindowCalls s"
  shows "windowsUnique c s'"
proof (rule windowsUnique_smaller [OF assms(1)])
  have d: "distinct (map fst (editorColumnsToWinId s))" "distinct (map fst (noColumnEditorsToWinId s))"
    "distinct (map snd (editorColumnsToWinId s))" "distinct (map snd (noColumnEditorsToWinId s))"
    using assms(1) unfolding windowsUnique_def windowIds_def by simp_all
  show "distinct (map fst (editorColumnsToWinId s'))"
    unfolding assms(2) using d(1) by (rule distinct_delete)
  show "distinct (map fst (noColumnEditorsToWinId s'))"
    unfolding assms(3) by (rule d(2))
  show "distinct (map snd (editorColumnsToWinId s'))"
    unfolding assms(2) using d(3) by (rule distinct_snd_delete)
  show "distinct (map snd (noColumnEditorsToWinId s'))"
    unfolding assms(3) by (rule d(4))
  show "set (map snd (editorColumnsToWinId s')) \<subseteq> set (map snd (editorColumnsToWinId s))"
    unfolding assms(2) by (rule snd_delete_subset)
  show "set (map snd (noColumnEditorsToWinId s')) \<subseteq> set (map snd (noColumnEditorsToWinId s))"
    unfolding assms(3) by simp
  show "openWindowCalls s' = openWindowCalls s" by (rule assms(4))
qed

lemma windowsUnique_delete_columnless:
  assumes "windowsUnique c s"
    and "noColumnEditorsToWinId s' = AList.delete e (noColumnEditorsToWinId s)"
    and "editorColumnsToWinId s' = editorColumnsToWinId s"
    and "openWindowCalls s' = openWindowCalls s"
  shows "windowsUnique c s'"
proof (rule windowsUnique_smaller [OF assms(1)])
  have d: "distinct (map fst (editorColumnsToWinId s))" "distinct (map fst (noColumnEditorsToWinId s))"
    "distinct (map snd (editorColumnsToWinId s))" "distinct (map snd (noColumnEditorsToWinId s))"
    using assms(1) unfolding windowsUnique_def windowIds_def by simp_all
  show "distinct (map fst (noColumnEditorsToWinId s'))"
    unfolding assms(2) using d(2) by (rule distinct_delete)
  show "distinct (map fst (editorColumnsToWinId s'))"
    unfolding assms(3) by (rule d(1))
  show "distinct (map snd (noColumnEditorsToWinId s'))"
    unfolding assms(2) using d(4) by (rule distinct_snd_delete)
  show "distinct (map snd (editorColumnsToWinId s'))"
    unfolding assms(3) by (rule d(3))
  show "set (map snd (noColumnEditorsToWinId s')) \<subseteq> set (map snd (noColumnEditorsToWinId s))"
    unfolding assms(2) by (rule snd_delete_subset)
  show "set (map snd (editorColumnsToWinId s')) \<subseteq> set (map snd (editorColumnsToWinId s))"
    unfolding assms(3) by simp
  show "openWindowCalls s' = openWindowCalls s" by (rule assms(4))
qed

lemma resolveWindow_unique:
  assumes "freshWindows c" "windowsUnique c s"
  shows "windowsUnique c (snd (resolveWindow c h e s))"
proof -
  obtain r s' where cw: "createNeovimWindow c s = (r, s')"
    by (cases "createNeovimWindow c s")
  note eqs = createNeovimWindow_eqD [OF cw]
  have fail: "windowsUnique c s'"
    using eqs(2,3,6) assms(2) by (rule windowsUnique_cong)
  show ?thesis
  proof (cases r)
    case (Inl err)
    then show ?thesis
      using cw fail assms(2) by (simp add: resolveWindow_def split: option.splits)
  next
    case (Inr w)
    then have new: "openWindow c (openWindowCalls s) = Resolved (Inr w)"
      and calls: "openWindowCalls s' = Suc (openWindowCalls s)"
      using createNeovimWindow_Inr [of c s w] cw by simp_all
    show ?thesis
    proof (cases "truthyColumn (viewColumn h e)")
      case None
      have "windowsUnique c (s'\<lparr>noColumnEditorsToWinId := AList.update e w (noColumnEditorsToWinId s')\<rparr>)"
        using assms new by (rule windowsUnique_new_columnless) (simp_all add: eqs calls)
      then show ?thesis
        using None cw Inr by (simp add: resolveWindow_def)
    next
      case (Some col)
      have "windowsUnique c (s'\<lparr>editorColumnsToWinId := AList.update col w (editorColumnsToWinId s')\<rparr>)"
        using assms new by (rule windowsUnique_new_column) (simp_all add: eqs calls)
      then show ?thesis
        using Some cw Inr assms(2) by (simp add: resolveWindow_def)
    qed
  qed
qed

lemma tryAssignWindow_state:
  "fst (snd (tryAssignWindow c h e (s, rs, keep))) = snd (resolveWindow c h e s)"
  by (simp add: tryAssignWindow.simps Let_def split: prod.splits sum.splits option.splits)

lemma windowsUnique_logged [simp]:
  "windowsUnique c (s\<lparr>logged := l\<rparr>) = windowsUnique c s"
  by (simp add: windowsUnique_def windowsCreated_def windowIds_def)

lemma syncVisibleEditor_state:
  "fst (snd (syncVisibleEditor c h prev e (s, rs, keep))) = snd (createBufferIfUnknown c h e s) \<or>
   fst (snd (syncVisibleEditor c h prev e (s, rs, keep))) =
     snd (resolveWindow c h e (snd (createBufferIfUnknown c h e s))) \<or>
   (\<exists>l. fst (snd (syncVisibleEditor c h prev e (s, rs, keep))) =
     (snd (resolveWindow c h e (snd (createBufferIfUnknown c h e s))))\<lparr>logged := l\<rparr>)"
proof -
  obtain step s1 where cb: "createBufferIfUnknown c h e s = (step, s1)"
    by (cases "createBufferIfUnknown c h e s")
  obtain r s2 rs2 keep2 where ta: "tryAssignWindow c h e (s1, rs, keep) = (r, s2, rs2, keep2)"
    by (cases "tryAssignWindow c h e (s1, rs, keep)")
  have "s2 = snd (resolveWindow c h e s1)"
    using tryAssignWindow_state [of c h e s1 rs keep] ta by simp
  then show ?thesis
    using cb ta by (cases step; cases r) (auto simp: syncVisibleEditor.simps)
qed

lemma syncVisibleEditor_unique:
  assumes "freshWindows c" "windowsUnique c s"
  shows "windowsUnique c (fst (snd (syncVisibleEditor c h prev e (s, rs, keep))))"
proof -
  let ?s1 = "snd (createBufferIfUnknown c h e s)"
  have s1: "windowsUnique c ?s1"
    using assms(2) by (intro windowsUnique_cong [of ?s1 s]) (simp_all add: createBufferIfUnknown_maps)
  then have "windowsUnique c (snd (resolveWindow c h e ?s1))"
    using assms(1) by (intro resolveWindow_unique)
  then show ?thesis
    using s1 syncVisibleEditor_state [of c h prev e s rs keep] by auto
qed

lemma syncVisibleEditor_tdb:
  "textDocumentToBufferId (fst (snd (syncVisibleEditor c h prev e (s, rs, keep)))) =
   textDocumentToBufferId (snd (createBufferIfUnknown c h e s))"
  using syncVisibleEditor_state [of c h prev e s rs keep]
  by (auto simp: resolveWindow_tdb)

lemma syncVisibleEditor_distinct:
  assumes "distinct (map fst (textDocumentToBufferId s))"
  shows "distinct (map fst (textDocumentToBufferId (fst (snd (syncVisibleEditor c h prev e (s, rs, keep))))))"
  using assms createBufferIfUnknown_tdb [of c h e s]
  by (auto simp: syncVisibleEditor_tdb distinct_update)


text \<open>What every round keeps, the first loop keeps, wherever it ends.\<close>

lemma openLoop_invariant:
  assumes "P acc"
    and "\<And>e acc. e \<in> set es \<Longrightarrow> P acc \<Longrightarrow> P (snd (syncVisibleEditor c h prev e acc))"
  shows "P (snd (openLoop c h prev es acc))"
  using assms
proof (induction es arbitrary: acc)
  case Nil
  then show ?case by simp
next
  case (Cons e es)
  obtain oc acc' where r: "syncVisibleEditor c h prev e acc = (oc, acc')"
    by (cases "syncVisibleEditor c h prev e acc")
  have acc': "P acc'"
    using Cons.prems(2) [of e acc] Cons.prems(1) r by simp
  show ?case
  proof (cases oc)
    case Returned
    have "P (snd (openLoop c h prev es acc'))"
      using acc' Cons.prems(2) by (intro Cons.IH) simp_all
    then show ?thesis using r Returned by simp
  next
    case Threw
    then show ?thesis using r acc' by simp
  qed
qed

lemma openLoop_unique:
  assumes "freshWindows c" "mapsUnique c (fst acc)"
  shows "mapsUnique c (fst (snd (openLoop c h prev es acc)))"
proof (rule openLoop_invariant [where P = "\<lambda>acc. mapsUnique c (fst acc)"])
  show "mapsUnique c (fst acc)" by (rule assms(2))
next
  fix e and acc :: pass
  assume u: "mapsUnique c (fst acc)"
  obtain s rs keep where acc: "acc = (s, rs, keep)" by (cases acc)
  show "mapsUnique c (fst (snd (syncVisibleEditor c h prev e acc)))"
    using u assms(1) unfolding mapsUnique_def acc
    by (simp add: syncVisibleEditor_unique syncVisibleEditor_distinct)
qed

lemma closeNonVisible_unique:
  assumes "mapsUnique c s"
  shows "mapsUnique c (fst (closeNonVisible h cur keep p (s, rs)))"
proof -
  let ?s' = "fst (closeNonVisible h cur keep p (s, rs))"
  have "distinct (map fst (textDocumentToBufferId ?s'))"
    using assms by (simp add: mapsUnique_def closeNonVisible_tdb distinct_delete)
  moreover have "windowsUnique c ?s'"
  proof -
    have u: "windowsUnique c s" using assms by (simp add: mapsUnique_def)
    have calls: "openWindowCalls ?s' = openWindowCalls s" by (simp add: closeNonVisible_rest)
    have "(editorColumnsToWinId ?s' = editorColumnsToWinId s \<and>
           noColumnEditorsToWinId ?s' = noColumnEditorsToWinId s) \<or>
          (\<exists>col. editorColumnsToWinId ?s' = AList.delete col (editorColumnsToWinId s) \<and>
           noColumnEditorsToWinId ?s' = noColumnEditorsToWinId s) \<or>
          (noColumnEditorsToWinId ?s' = AList.delete p (noColumnEditorsToWinId s) \<and>
           editorColumnsToWinId ?s' = editorColumnsToWinId s)"
      by (auto simp: closeNonVisible_cols closeNonVisible_nocol split: option.splits)
    then consider (same) "editorColumnsToWinId ?s' = editorColumnsToWinId s"
        "noColumnEditorsToWinId ?s' = noColumnEditorsToWinId s"
      | (col) col where "editorColumnsToWinId ?s' = AList.delete col (editorColumnsToWinId s)"
        "noColumnEditorsToWinId ?s' = noColumnEditorsToWinId s"
      | (nocol) "noColumnEditorsToWinId ?s' = AList.delete p (noColumnEditorsToWinId s)"
        "editorColumnsToWinId ?s' = editorColumnsToWinId s"
      by blast
    then show ?thesis
    proof cases
      case same
      then show ?thesis using u calls by (intro windowsUnique_cong [of ?s' s]) simp_all
    next
      case col
      with u show ?thesis using calls by (rule windowsUnique_delete_column)
    next
      case nocol
      with u show ?thesis using calls by (rule windowsUnique_delete_columnless)
    qed
  qed
  ultimately show ?thesis by (simp add: mapsUnique_def)
qed

lemma fold_closeNonVisible_unique:
  "mapsUnique c (fst acc) \<Longrightarrow> mapsUnique c (fst (fold (closeNonVisible h cur keep) ps acc))"
proof (induction ps arbitrary: acc)
  case Nil
  then show ?case by simp
next
  case (Cons p ps)
  obtain s rs where acc: "acc = (s, rs)" by (cases acc)
  have "mapsUnique c (fst (closeNonVisible h cur keep p acc))"
    using Cons.prems unfolding acc by (simp add: closeNonVisible_unique)
  then show ?case using Cons by simp
qed

lemma mapsUnique_cong:
  "textDocumentToBufferId s' = textDocumentToBufferId s \<Longrightarrow>
   editorColumnsToWinId s' = editorColumnsToWinId s \<Longrightarrow>
   noColumnEditorsToWinId s' = noColumnEditorsToWinId s \<Longrightarrow>
   openWindowCalls s' = openWindowCalls s \<Longrightarrow>
   mapsUnique c s \<Longrightarrow> mapsUnique c s'"
  unfolding mapsUnique_def by (auto intro: windowsUnique_cong [of s' s])

lemma closeWindows_unique:
  "mapsUnique c (fst acc) \<Longrightarrow> mapsUnique c (fst (closeWindows h prev acc))"
  by (cases acc) (simp add: fold_closeNonVisible_unique)

lemma issueBatch_unique:
  "mapsUnique c (fst acc) \<Longrightarrow> mapsUnique c (issueBatch h acc)"
  by (cases acc) (auto simp: callAtomic_def elim!: mapsUnique_cong [rotated -1])

lemma syncLayout_unique:
  assumes "freshWindows c" "mapsUnique c s"
  shows "mapsUnique c (snd (syncLayout c h s))"
proof -
  obtain oc acc where ow: "openWindows c h s = (oc, acc)"
    by (cases "openWindows c h s")
  have "mapsUnique c (fst (snd (openWindows c h s)))"
    unfolding openWindows_def using assms by (intro openLoop_unique) simp_all
  then have u: "mapsUnique c (fst acc)"
    using ow by simp
  show ?thesis
    using ow u by (cases oc) (simp_all add: syncLayout_def closeWindows_unique issueBatch_unique)
qed

lemma initBufferForDocument_maps:
  "textDocumentToBufferId (initBufferForDocument h doc b ed s) = textDocumentToBufferId s"
  "editorColumnsToWinId (initBufferForDocument h doc b ed s) = editorColumnsToWinId s"
  "noColumnEditorsToWinId (initBufferForDocument h doc b ed s) = noColumnEditorsToWinId s"
  "openWindowCalls (initBufferForDocument h doc b ed s) = openWindowCalls s"
  by (simp_all add: initBufferForDocument_def callAtomic_def Let_def)

lemma assignMapping_unique:
  assumes "mapsUnique c s" "assignMapping h buffers doc bufId s = Some (force, s1)"
  shows "mapsUnique c s1"
proof (cases "has (textDocumentToBufferId s) doc")
  case True
  then show ?thesis using assms by (simp add: assignMapping_def)
next
  case False
  then obtain bs where bs: "buffers = Resolved bs"
    using assms(2) by (cases buffers) (simp_all add: assignMapping_def)
  define s0 where "s0 = (case find (\<lambda>b. Num b = bufId) bs of
      Some b \<Rightarrow> initBufferForDocument h doc b None s | None \<Rightarrow> s)"
  have eq: "textDocumentToBufferId s0 = textDocumentToBufferId s"
    "editorColumnsToWinId s0 = editorColumnsToWinId s"
    "noColumnEditorsToWinId s0 = noColumnEditorsToWinId s"
    "openWindowCalls s0 = openWindowCalls s"
    by (simp_all add: s0_def initBufferForDocument_maps split: option.splits)
  have s1: "s1 = s0\<lparr>textDocumentToBufferId := AList.update doc bufId (textDocumentToBufferId s0)\<rparr>"
    using assms(2) False bs by (simp add: assignMapping_def s0_def Let_def)
  have "windowsUnique c s1"
    using assms(1) unfolding mapsUnique_def
    by (intro windowsUnique_cong [of s1 s]) (simp_all add: s1 eq)
  moreover have "distinct (map fst (textDocumentToBufferId s1))"
    using assms(1) unfolding mapsUnique_def by (simp add: s1 eq distinct_update)
  ultimately show ?thesis by (simp add: mapsUnique_def)
qed

lemma mapsUnique_callAtomic [simp]: "mapsUnique c (callAtomic rs s) = mapsUnique c s"
  by (simp add: mapsUnique_def windowsUnique_def windowsCreated_def windowIds_def callAtomic_def)

lemma externalBuffer_unique:
  assumes "mapsUnique c s"
  shows "mapsUnique c (snd (snd (externalBuffer h buffers name idStr et ts j s)))"
proof -
  have "mapsUnique c s1" if "assignMapping h buffers doc (parseInt idStr) s = Some (force, s1)"
    for doc force s1
    using assms that by (rule assignMapping_unique)
  then show ?thesis
    using assms
    by (auto simp: externalBuffer_def attachNeovimExternalBuffer_def Let_def
        resyncBufferTabOptions_def
        split: prod.splits option.splits reply.splits)
qed

lemma openFile_state: "snd (snd (openFile h fileName close s)) = s"
  by (simp add: openFile_def Let_def split: reply.splits option.splits prod.splits outcome.splits)

lemma step_unique:
  assumes "freshWindows c" "mapsUnique c s"
  shows "mapsUnique c (step c ev s)"
proof (cases ev)
  case (LayoutPass h)
  then show ?thesis using assms by (simp add: syncLayout_unique)
next
  case (DocumentClosed d)
  have "mapsUnique c (onDidCloseTextDocument d s)"
    using assms(2)
    by (simp add: mapsUnique_def onDidCloseTextDocument_def distinct_delete
        windowsUnique_def windowsCreated_def windowIds_def)
  then show ?thesis using DocumentClosed by simp
next
  case (RedrawBatch batch)
  have "mapsUnique c (handleRedrawBatch batch s)"
    using assms(2)
    by (simp add: mapsUnique_def handleRedrawBatch_def
        windowsUnique_def windowsCreated_def windowIds_def)
  then show ?thesis using RedrawBatch by simp
next
  case (ExtensionRequest h buffers req)
  have "mapsUnique c (snd (snd (handleExtensionRequest h buffers req s)))"
    using assms(2) by (cases req) (simp_all add: openFile_state externalBuffer_unique)
  then show ?thesis using ExtensionRequest by simp
qed

lemma run_unique:
  "freshWindows c \<Longrightarrow> mapsUnique c s \<Longrightarrow> mapsUnique c (run c evs s)"
  unfolding run_def by (induction evs arbitrary: s) (simp_all add: step_unique)

lemma initial_unique: "mapsUnique c initial"
  by (simp add: mapsUnique_def windowsUnique_def windowsCreated_def windowIds_def initial_def)

text \<open>
  C6. Mapping uniqueness. In every state a run reaches from the initial state, by any
  sequence of reconciliation passes, document closes, redraw batches and requests of
  the backend, a document has at most one entry in the Document-to-Buffer map, a column
  at most one in the Column-to-Window map, an editor without column at most one in the
  Editor-to-Window map, and no window id occurs twice in the two window maps taken
  together: the window of an editor without column is shared with no column and no other
  such editor. Every one of these ids is the answer to an \<^verbatim>\<open>openWindow\<close> call already made.
  The backend is taken to answer no two \<^verbatim>\<open>openWindow\<close> calls with the same window.
\<close>

theorem mapping_uniqueness:
  assumes "freshWindows c"
  shows "distinct (map fst (textDocumentToBufferId (run c evs initial))) \<and>
         distinct (map fst (editorColumnsToWinId (run c evs initial))) \<and>
         distinct (map fst (noColumnEditorsToWinId (run c evs initial))) \<and>
         distinct (windowIds (run c evs initial)) \<and>
         windowsCreated c (run c evs initial)"
  using run_unique [OF assms initial_unique, of evs]
  by (simp add: mapsUnique_def windowsUnique_def)

lemma exampleClient_fresh: "freshWindows exampleClient"
  by (simp add: freshWindows_def exampleClient_def)

theorem mapping_uniqueness_witness:
  "freshWindows exampleClient \<and>
   map fst (textDocumentToBufferId (run exampleClient [LayoutPass exampleHost, DocumentClosed 20] initial)) = [10] \<and>
   editorColumnsToWinId (run exampleClient [LayoutPass exampleHost, DocumentClosed 20] initial) =
     [(1, 1000), (2, 1001)] \<and>
   noColumnEditorsToWinId (run exampleClient [LayoutPass exampleHost, DocumentClosed 20] initial) =
     [(3, 1002)] \<and>
   distinct (windowIds (run exampleClient [LayoutPass exampleHost, DocumentClosed 20] initial)) \<and>
   windowsCreated exampleClient (run exampleClient [LayoutPass exampleHost, DocumentClosed 20] initial)"
  using mapping_uniqueness [OF exampleClient_fresh, of "[LayoutPass exampleHost, DocumentClosed 20]"]
    exampleClient_fresh
  by (simp add: run_def pass_defs onDidCloseTextDocument_def exampleHost_def exampleClient_def
      initial_def)

section \<open>Cleanup on close and on invisibility\<close>
























section \<open>Idempotence of a pass\<close>

lemma syncVisibleEditor_unchanged:
  "has (textDocumentToBufferId s) (document h e) \<Longrightarrow> e \<in> set prev \<Longrightarrow>
   syncVisibleEditor c h prev e (s, rs, keep) = (Returned, (s, rs, keep))"
  by (simp add: syncVisibleEditor.simps createBufferIfUnknown_def)

lemma openLoop_unchanged:
  "\<forall>e\<in>set es. has (textDocumentToBufferId s) (document h e) \<and> e \<in> set prev \<Longrightarrow>
   openLoop c h prev es (s, rs, keep) = (Returned, (s, rs, keep))"
  by (induction es) (simp_all add: syncVisibleEditor_unchanged)

lemma fold_closeNonVisible_unchanged:
  "set ps \<subseteq> set cur \<Longrightarrow> fold (closeNonVisible h cur keep) ps (s, rs) = (s, rs)"
  by (induction ps) (auto simp: closeNonVisible.simps)

text \<open>
  C1. Idempotence. When the previous snapshot holds exactly the editors now visible and
  every visible document has a buffer id, a pass returns and changes nothing but this: the
  batch it issues is empty, the snapshot is the visible editors, the readiness promise is
  cleared. No buffer and no window is created (the counts of \<^verbatim>\<open>createBuffer\<close> and
  \<^verbatim>\<open>openWindow\<close> calls are as before), and the three maps are as before.
\<close>

theorem syncLayout_idempotent:
  assumes "set (openedEditors s) = set (visibleTextEditors h)"
    and "\<forall>e\<in>set (visibleTextEditors h). has (textDocumentToBufferId s) (document h e)"
  shows "syncLayout c h s =
           (Returned, s\<lparr>issued := issued s @ [[]], openedEditors := visibleTextEditors h,
              changeLayoutPromise := False\<rparr>)"
proof -
  have "openWindows c h s = (Returned, (s, [], []))"
    unfolding openWindows_def using assms
    by (intro openLoop_unchanged) simp
  moreover have "fold (closeNonVisible h (visibleTextEditors h) []) (openedEditors s) (s, []) = (s, [])"
    using assms(1) by (intro fold_closeNonVisible_unchanged) simp
  ultimately show ?thesis
    by (simp add: syncLayout_def callAtomic_def)
qed

theorem syncLayout_idempotent_witness:
  "set (openedEditors exampleState) = set (visibleTextEditors exampleHost) \<and>
   has (textDocumentToBufferId exampleState) (document exampleHost 1) \<and>
   has (textDocumentToBufferId exampleState) (document exampleHost 2) \<and>
   has (textDocumentToBufferId exampleState) (document exampleHost 3) \<and>
   syncLayout exampleClient exampleHost exampleState = (Returned, exampleState\<lparr>issued := [[]]\<rparr>)"
  using syncLayout_idempotent [of exampleState exampleHost exampleClient]
  by (simp add: has_def exampleHost_def exampleState_def)

section \<open>A failure stops one editor, not the pass\<close>













section \<open>Requests of the backend: external buffers\<close>

lemma contains_Nil [simp]: "contains (x # sub) [] = False"
  by simp

text \<open>
  C4. A request about an external buffer whose name has the shape of a URI (it
  contains \<^verbatim>\<open>://\<close>) and whose jump flag is 0 does nothing: the handler returns, no call
  is made to the host editor (no document opened, no editor shown), and the state, with
  all its maps, is as before.
\<close>

theorem external_buffer_no_jump:
  assumes "contains ''://'' name" and "isJumping = 0"
  shows "handleExtensionRequest h buffers (ExternalBuffer name idStr expandTab tabStop isJumping) s =
           (Returned, [], s)"
proof -
  have "name \<noteq> []" using assms(1) by auto
  then show ?thesis
    using assms by (simp add: externalBuffer_def uriShaped_def Let_def)
qed

theorem external_buffer_no_jump_witness:
  "contains ''://'' ''file:///A.txt'' \<and>
   handleExtensionRequest exampleHost (Resolved [1, 3]) (ExternalBuffer ''file:///A.txt'' ''1'' 1 4 0)
     exampleState = (Returned, [], exampleState)"
  using external_buffer_no_jump [of "''file:///A.txt''" 0 exampleHost "Resolved [1, 3]" "''1''" 1 4 exampleState]
  by simp

lemma externalBuffer_jump:
  assumes "uriShaped name" and "isJumping \<noteq> 0"
    and "findOrOpen h name = (Some doc, calls)"
    and "\<not> has (textDocumentToBufferId s) doc"
  shows "snd (snd (externalBuffer h (Resolved bs) name idStr expandTab tabStop isJumping s)) =
     (let s0 = (case find (\<lambda>b. Num b = parseInt idStr) bs of
                  Some b \<Rightarrow> initBufferForDocument h doc b None s | None \<Rightarrow> s);
          s1 = s0\<lparr>textDocumentToBufferId := AList.update doc (parseInt idStr) (textDocumentToBufferId s0)\<rparr>
      in case showTextDocument h doc (jumpColumn h) of
           Rejected \<Rightarrow> s1
         | Resolved editor \<Rightarrow>
             if find (\<lambda>b. Num b = parseInt idStr) bs \<noteq> None
             then resyncBufferTabOptions h editor (parseInt idStr) s1 else s1)"
proof -
  have "name \<noteq> []" using assms(1) by (simp add: uriShaped_def)
  then show ?thesis
    using assms
    by (simp add: externalBuffer_def assignMapping_def Let_def split: reply.splits)
qed

text \<open>
  C9. The jump path of an external buffer. For a name of URI shape with the jump flag
  set, when the document of that name is found or opened, has no entry in the
  Document-to-Buffer map, and the backend answers with its list of buffers: after the
  request the document is mapped to the id parsed from the request, the number that
  \<^verbatim>\<open>parseInt\<close> gives. When no buffer of the list has that id, that entry is the only change
  of the state (no batch is issued: the buffer is not initialized, its tab options are
  not sent again), whatever showing the document does. When a buffer of the list has the
  id and the document is shown, two batches are issued: the initialization of the buffer
  and its tab options.
\<close>

theorem external_buffer_jump_mapping:
  assumes "uriShaped name" and "isJumping \<noteq> 0"
    and "findOrOpen h name = (Some doc, calls)"
    and "\<not> has (textDocumentToBufferId s) doc"
  shows "map_of (textDocumentToBufferId (snd (snd (handleExtensionRequest h (Resolved bs)
              (ExternalBuffer name idStr expandTab tabStop isJumping) s)))) doc = Some (parseInt idStr)
    \<and> (find (\<lambda>b. Num b = parseInt idStr) bs = None \<longrightarrow>
          snd (snd (handleExtensionRequest h (Resolved bs)
              (ExternalBuffer name idStr expandTab tabStop isJumping) s)) =
            s\<lparr>textDocumentToBufferId := AList.update doc (parseInt idStr) (textDocumentToBufferId s)\<rparr>)
    \<and> (find (\<lambda>b. Num b = parseInt idStr) bs = Some b \<and>
         showTextDocument h doc (jumpColumn h) = Resolved editor \<longrightarrow>
          issued (snd (snd (handleExtensionRequest h (Resolved bs)
              (ExternalBuffer name idStr expandTab tabStop isJumping) s))) =
            issued s @ [initRequests h doc b None,
              tabOptionRequests (VNum (parseInt idStr)) (insertSpaces h editor) (tabSize h editor)])"
  using externalBuffer_jump [OF assms, of bs idStr expandTab tabStop]
  by (auto simp: Let_def update_conv' resyncBufferTabOptions_def callAtomic_def
      initBufferForDocument_def split: reply.splits option.splits)

lemma parseInt_small: "parseInt ''7'' = Num 7"
  by code_simp

lemma parseInt_rounded: "parseInt ''9007199254740993'' = Num 9007199254740992"
  by code_simp

text \<open>On the example host: the id 7 is no buffer of the backend, and the entry is the only
  change. An id string above \<open>2 ^ 53\<close> is rounded as a double is: the id string
  \<^verbatim>\<open>9007199254740993\<close> is the number 9007199254740992, the buffer of that id is found and
  initialized.\<close>

theorem external_buffer_jump_mapping_witness:
  "uriShaped ''file:///A.txt'' \<and>
   findOrOpen exampleHost ''file:///A.txt'' = (Some 10, []) \<and>
   \<not> has (textDocumentToBufferId initial) 10 \<and>
   parseInt ''7'' = Num 7 \<and>
   find (\<lambda>b. Num b = parseInt ''7'') [1, 3] = None \<and>
   handleExtensionRequest exampleHost (Resolved [1, 3]) (ExternalBuffer ''file:///A.txt'' ''7'' 1 4 1) initial =
     (Returned, [ShowTextDocumentOptions 10 (Some 1) False False],
      initial\<lparr>textDocumentToBufferId := [(10, Num 7)]\<rparr>) \<and>
   parseInt ''9007199254740993'' = Num 9007199254740992 \<and>
   find (\<lambda>b. Num b = parseInt ''9007199254740993'') [9007199254740992] = Some 9007199254740992 \<and>
   map_of (textDocumentToBufferId (snd (snd (handleExtensionRequest exampleHost
       (Resolved [9007199254740992])
       (ExternalBuffer ''file:///A.txt'' ''9007199254740993'' 1 4 1) initial)))) 10 =
     Some (Num 9007199254740992) \<and>
   issued (snd (snd (handleExtensionRequest exampleHost (Resolved [9007199254740992])
       (ExternalBuffer ''file:///A.txt'' ''9007199254740993'' 1 4 1) initial))) =
     [initRequests exampleHost 10 9007199254740992 None,
      tabOptionRequests (VNum (Num 9007199254740992)) False 2]"
  using external_buffer_jump_mapping [where name = "''file:///A.txt''" and isJumping = 1
      and h = exampleHost and doc = 10 and calls = "[]" and s = initial and bs = "[1, 3]"
      and idStr = "''7''" and expandTab = 1 and tabStop = 4]
    external_buffer_jump_mapping [where name = "''file:///A.txt''" and isJumping = 1
      and h = exampleHost and doc = 10 and calls = "[]" and s = initial
      and bs = "[9007199254740992]" and b = 9007199254740992 and editor = 4
      and idStr = "''9007199254740993''" and expandTab = 1 and tabStop = 4]
  by (simp add: uriShaped_def findOrOpen_def has_def exampleHost_def initial_def parseInt_small
      parseInt_rounded externalBuffer_def assignMapping_def jumpColumn_def
      resyncBufferTabOptions_def initBufferForDocument_def callAtomic_def)

section \<open>The batch of the buffer initializer\<close>

lemma split_not_Nil: "split sep cur xs \<noteq> []"
  by (induction sep cur xs rule: split.induct) auto

lemma joinWith_Cons: "ls \<noteq> [] \<Longrightarrow> joinWith sep (l # ls) = l @ sep @ joinWith sep ls"
  by (cases ls) simp_all

text \<open>Joining the lines with the separator gives the text back.\<close>

lemma joinWith_split: "joinWith sep (split sep cur xs) = cur @ xs"
proof (induction sep cur xs rule: split.induct)
  case (1 sep cur)
  then show ?case by simp
next
  case (2 sep cur x xs)
  show ?case
  proof (cases "sep \<noteq> [] \<and> take (length sep) (x # xs) = sep")
    case True
    then have "sep @ drop (length sep) (x # xs) = x # xs"
      by (metis append_take_drop_id)
    then show ?thesis
      using True 2(1) by (simp add: joinWith_Cons split_not_Nil del: split.simps(2))
         (simp add: joinWith_Cons split_not_Nil)
  next
    case False
    then show ?thesis using 2(2) by auto
  qed
qed

text \<open>No line holds the separator: the text is cut at every place where the separator
  stands, read from the left.\<close>

lemma contains_occurrence:
  "contains sub xs \<Longrightarrow> \<exists>k\<le>length xs. take (length sub) (drop k xs) = sub"
proof (induction xs)
  case Nil
  then show ?case by simp
next
  case (Cons x xs)
  show ?case
  proof (cases "take (length sub) (x # xs) = sub")
    case True
    then have "take (length sub) (drop 0 (x # xs)) = sub" by simp
    then show ?thesis by blast
  next
    case False
    then have "contains sub xs" using Cons.prems by simp
    then obtain k where "k \<le> length xs" "take (length sub) (drop k xs) = sub"
      using Cons.IH by blast
    then have "Suc k \<le> length (x # xs) \<and> take (length sub) (drop (Suc k) (x # xs)) = sub"
      by simp
    then show ?thesis by blast
  qed
qed

lemma line_without_separator:
  assumes "sep \<noteq> []"
    and "\<forall>k<length cur. take (length sep) (drop k (cur @ rest)) \<noteq> sep"
  shows "\<not> contains sep cur"
proof
  assume "contains sep cur"
  then obtain k where k: "k \<le> length cur" "take (length sep) (drop k cur) = sep"
    using contains_occurrence by blast
  have "length (take (length sep) (drop k cur)) = length sep"
    by (rule arg_cong [OF k(2)])
  then have len: "length sep \<le> length cur - k"
    by (simp add: min_def split: if_splits)
  then have "k < length cur" using assms(1) by (cases sep) auto
  moreover have "take (length sep) (drop k (cur @ rest)) = take (length sep) (drop k cur)"
    using len k(1) by simp
  ultimately show False using assms(2) k(2) by auto
qed

lemma split_lines_without_separator:
  "sep \<noteq> [] \<Longrightarrow> \<forall>k<length cur. take (length sep) (drop k (cur @ xs)) \<noteq> sep \<Longrightarrow>
   \<forall>l\<in>set (split sep cur xs). \<not> contains sep l"
proof (induction sep cur xs rule: split.induct)
  case (1 sep cur)
  then show ?case
    using line_without_separator [of sep cur "[]"] by simp
next
  case (2 sep cur x xs)
  show ?case
  proof (cases "take (length sep) (x # xs) = sep")
    case True
    have "\<not> contains sep cur"
      using 2(3,4) by (rule line_without_separator)
    moreover have "\<forall>l\<in>set (split sep [] (drop (length sep) (x # xs))). \<not> contains sep l"
      using 2(1) 2(3) True by simp
    ultimately show ?thesis
      using True 2(3) by simp
  next
    case False
    have "\<forall>k<length (cur @ [x]). take (length sep) (drop k ((cur @ [x]) @ xs)) \<noteq> sep"
    proof (intro allI impI)
      fix k assume "k < length (cur @ [x])"
      then consider "k < length cur" | "k = length cur" by fastforce
      then show "take (length sep) (drop k ((cur @ [x]) @ xs)) \<noteq> sep"
      proof cases
        case 1
        then show ?thesis using 2(4) by simp
      next
        case 2
        then show ?thesis using False by simp
      qed
    qed
    then have "\<forall>l\<in>set (split sep (cur @ [x]) xs). \<not> contains sep l"
      using 2(2) 2(3) False by simp
    then show ?thesis using False by simp
  qed
qed

lemma eolString_not_Nil: "eolString e \<noteq> []"
  by (simp add: eolString_def)

text \<open>
  C8. The buffer initializer hands the backend one batch. With an editor, the batch
  sets \<^verbatim>\<open>expandtab\<close> to the editor's insert-spaces option, \<^verbatim>\<open>tabstop\<close> and \<^verbatim>\<open>shiftwidth\<close> to the
  editor's tab size when spaces are inserted and to 1 when not, the lines of the buffer
  to the text of the document split at the document's own end of line, the variable
  \<^verbatim>\<open>vscode_controlled\<close> to true, the name to the URI of the document, clears the undo
  history after the lines, and sets \<^verbatim>\<open>buflisted\<close> last. Without an editor it is the same
  batch with insert-spaces true and tab size 4. The lines are the text cut at its ends of
  line: there is at least one line, no line holds the end of line of the document, and
  the lines joined with it give the text back. The end of line is the line feed, or the
  carriage return and the line feed.
\<close>

theorem initBufferForDocument_batch:
  "issued (initBufferForDocument h doc bufId editor s) = issued s @ [initRequests h doc bufId editor]
   \<and> initRequests h doc bufId (Some e) =
       [(''nvim_buf_set_option'', [VNum (Num bufId), VStr ''expandtab'', VBool (insertSpaces h e)]),
        (''nvim_buf_set_option'',
           [VNum (Num bufId), VStr ''tabstop'', VNum (Num (if insertSpaces h e then tabSize h e else 1))]),
        (''nvim_buf_set_option'',
           [VNum (Num bufId), VStr ''shiftwidth'', VNum (Num (if insertSpaces h e then tabSize h e else 1))]),
        (''nvim_buf_set_lines'',
           [VNum (Num bufId), VNum (Num 0), VNum (Num 1), VBool False,
            VArr (map VStr (split (eolString (eol h doc)) [] (getText h doc)))]),
        (''nvim_buf_set_var'', [VNum (Num bufId), VStr ''vscode_controlled'', VBool True]),
        (''nvim_buf_set_name'', [VNum (Num bufId), VStr (uri h doc)]),
        (''nvim_call_function'', [VStr ''VSCodeClearUndo'', VArr [VNum (Num bufId)]]),
        (''nvim_buf_set_option'', [VNum (Num bufId), VStr ''buflisted'', VBool True])]
   \<and> initRequests h doc bufId None =
       [(''nvim_buf_set_option'', [VNum (Num bufId), VStr ''expandtab'', VBool True]),
        (''nvim_buf_set_option'', [VNum (Num bufId), VStr ''tabstop'', VNum (Num 4)]),
        (''nvim_buf_set_option'', [VNum (Num bufId), VStr ''shiftwidth'', VNum (Num 4)]),
        (''nvim_buf_set_lines'',
           [VNum (Num bufId), VNum (Num 0), VNum (Num 1), VBool False,
            VArr (map VStr (split (eolString (eol h doc)) [] (getText h doc)))]),
        (''nvim_buf_set_var'', [VNum (Num bufId), VStr ''vscode_controlled'', VBool True]),
        (''nvim_buf_set_name'', [VNum (Num bufId), VStr (uri h doc)]),
        (''nvim_call_function'', [VStr ''VSCodeClearUndo'', VArr [VNum (Num bufId)]]),
        (''nvim_buf_set_option'', [VNum (Num bufId), VStr ''buflisted'', VBool True])]
   \<and> split (eolString (eol h doc)) [] (getText h doc) \<noteq> []
   \<and> (\<forall>l\<in>set (split (eolString (eol h doc)) [] (getText h doc)).
         \<not> contains (eolString (eol h doc)) l)
   \<and> joinWith (eolString (eol h doc)) (split (eolString (eol h doc)) [] (getText h doc)) = getText h doc
   \<and> eolString LF = [CHR 0x0A] \<and> eolString CRLF = [CHR 0x0D, CHR 0x0A]
   \<and> last (initRequests h doc bufId editor) =
       (''nvim_buf_set_option'', [VNum (Num bufId), VStr ''buflisted'', VBool True])"
proof -
  have "\<forall>l\<in>set (split (eolString (eol h doc)) [] (getText h doc)).
         \<not> contains (eolString (eol h doc)) l"
    by (rule split_lines_without_separator) (simp_all add: eolString_not_Nil)
  then show ?thesis
    by (simp add: initBufferForDocument_def callAtomic_def initRequests_def tabOptionRequests_def
        joinWith_split split_not_Nil eolString_def Let_def split: option.splits prod.splits)
qed

text \<open>On the example host: the text of document 10, with line feeds, has the lines
  \<^verbatim>\<open>a\<close> and \<^verbatim>\<open>b\<close>; the text of document 20, which ends in a carriage return and a line feed,
  has the line \<^verbatim>\<open>c\<close> and an empty line.\<close>

theorem initBufferForDocument_batch_witness:
  "split (eolString (eol exampleHost 10)) [] (getText exampleHost 10) = [''a'', ''b'']
   \<and> \<not> contains (eolString (eol exampleHost 10)) ''a''
   \<and> \<not> contains (eolString (eol exampleHost 10)) ''b''
   \<and> split (eolString (eol exampleHost 20)) [] (getText exampleHost 20) = [''c'', []]
   \<and> \<not> contains (eolString (eol exampleHost 20)) ''c''
   \<and> \<not> contains (eolString (eol exampleHost 20)) []
   \<and> issued (initBufferForDocument exampleHost 10 1 (Some 2) initial) =
       [[(''nvim_buf_set_option'', [VNum (Num 1), VStr ''expandtab'', VBool False]),
         (''nvim_buf_set_option'', [VNum (Num 1), VStr ''tabstop'', VNum (Num 1)]),
         (''nvim_buf_set_option'', [VNum (Num 1), VStr ''shiftwidth'', VNum (Num 1)]),
         (''nvim_buf_set_lines'',
            [VNum (Num 1), VNum (Num 0), VNum (Num 1), VBool False, VArr [VStr ''a'', VStr ''b'']]),
         (''nvim_buf_set_var'', [VNum (Num 1), VStr ''vscode_controlled'', VBool True]),
         (''nvim_buf_set_name'', [VNum (Num 1), VStr ''file:///A.txt'']),
         (''nvim_call_function'', [VStr ''VSCodeClearUndo'', VArr [VNum (Num 1)]]),
         (''nvim_buf_set_option'', [VNum (Num 1), VStr ''buflisted'', VBool True])]]"
  using initBufferForDocument_batch [of exampleHost 10 1 "Some 2" initial 2]
    initBufferForDocument_batch [of exampleHost 20 1 "Some 2" initial 2]
  by (simp add: exampleHost_def eolString_def initial_def)

section \<open>Requests of the backend: opening a file\<close>

text \<open>
  The claim C5 as stated fails in three ways, all on the example host, where editor 1 is
  active in column 1. With the close mode 0, a number, the handler only opens and shows
  the document, in no given column: the current editor is not closed. With the close mode
  1 the active editor is closed before the document is shown: when it is the only editor
  open, the host has no editor open after the second call of the handler. When the host
  rejects the command that closes the active editor, the handler ends there and the
  document is never shown.
\<close>

theorem open_file_contract_counterexample:
  "activeTextEditor exampleHost = Some 1 \<and> viewColumn exampleHost 1 = Some 1
   \<and> handleExtensionRequest exampleHost (Resolved []) (OpenFile ''a.txt'' (CloseNum 0)) exampleState =
       (Returned, [OpenTextDocument (Some ''a.txt''), ShowTextDocument 30 None], exampleState)
   \<and> handleExtensionRequest exampleHost (Resolved []) (OpenFile ''a.txt'' (CloseNum 1)) exampleState =
       (Returned,
        [OpenTextDocument (Some ''a.txt''),
         ExecuteCommand ''workbench.action.revertAndCloseActiveEditor'',
         ShowTextDocument 30 (Some 1)], exampleState)
   \<and> fold hostCall
         (take 2 (fst (snd (handleExtensionRequest exampleHost (Resolved [])
            (OpenFile ''a.txt'' (CloseNum 1)) exampleState))))
         [(10, Some 1)] = []
   \<and> handleExtensionRequest (exampleHost\<lparr>executeCommand := (\<lambda>cmd. Rejected)\<rparr>) (Resolved [])
         (OpenFile ''a.txt'' (CloseNum 1)) exampleState =
       (Threw,
        [OpenTextDocument (Some ''a.txt''),
         ExecuteCommand ''workbench.action.revertAndCloseActiveEditor''], exampleState)"
  by (simp add: openFile_def closeCurrent_def closeOthers_def openArg_def exampleHost_def
      trim_def isWhiteSpace_def)

text \<open>
  C5, amended. The first call of an \<^verbatim>\<open>open-file\<close> request opens a new untitled document
  for the name \<^verbatim>\<open>__vscode_new__\<close> and the document of the trimmed name for any other name.
  When the document is opened and the calls to the host are not rejected: with a close
  mode that is a number other than 0 and an active editor, the active editor is closed
  before the document is shown, so that between the two calls the host has lost its
  first editor, and the document is shown in the column of the closed editor; with the
  close mode 0, or without an active editor, nothing is closed and no column is given;
  with the close mode \<^verbatim>\<open>"all"\<close> the other editors are closed only after the document has
  been shown, so that from the show on the host has an editor open, and exactly one at
  the end. A rejected command ends the handler where it stands: after a rejected close
  of the active editor the document is not shown. The editors of the host are followed
  along the calls the handler itself makes.
\<close>

theorem open_file_contract:
  "(\<exists>rest. fst (snd (handleExtensionRequest h buffers (OpenFile fileName close) s)) =
       OpenTextDocument (openArg fileName) # rest)
   \<and> openArg ''__vscode_new__'' = None
   \<and> (fileName \<noteq> ''__vscode_new__'' \<longrightarrow> openArg fileName = Some (trim fileName))
   \<and> (n \<noteq> 0 \<and> activeTextEditor h = Some e \<and>
       openTextDocument h (openArg fileName) = Resolved (Some doc) \<and>
       executeCommand h ''workbench.action.revertAndCloseActiveEditor'' = Resolved () \<and>
       showTextDocument h doc (viewColumn h e) = Resolved editor \<longrightarrow>
         handleExtensionRequest h buffers (OpenFile fileName (CloseNum n)) s =
           (Returned,
            [OpenTextDocument (openArg fileName),
             ExecuteCommand ''workbench.action.revertAndCloseActiveEditor'',
             ShowTextDocument doc (viewColumn h e)], s)
         \<and> fold hostCall
              (take 2 (fst (snd (handleExtensionRequest h buffers (OpenFile fileName (CloseNum n)) s))))
              eds = tl eds
         \<and> fold hostCall
              (fst (snd (handleExtensionRequest h buffers (OpenFile fileName (CloseNum n)) s)))
              eds = (doc, viewColumn h e) # removeAll (doc, viewColumn h e) (tl eds))
   \<and> (n \<noteq> 0 \<and> activeTextEditor h = Some e \<and>
       openTextDocument h (openArg fileName) = Resolved (Some doc) \<and>
       executeCommand h ''workbench.action.revertAndCloseActiveEditor'' = Rejected \<longrightarrow>
         handleExtensionRequest h buffers (OpenFile fileName (CloseNum n)) s =
           (Threw,
            [OpenTextDocument (openArg fileName),
             ExecuteCommand ''workbench.action.revertAndCloseActiveEditor''], s))
   \<and> (openTextDocument h (openArg fileName) = Resolved (Some doc) \<and>
       showTextDocument h doc None = Resolved editor \<longrightarrow>
         handleExtensionRequest h buffers (OpenFile fileName (CloseNum 0)) s =
           (Returned, [OpenTextDocument (openArg fileName), ShowTextDocument doc None], s)
         \<and> (activeTextEditor h = None \<longrightarrow>
              handleExtensionRequest h buffers (OpenFile fileName (CloseNum n)) s =
                (Returned, [OpenTextDocument (openArg fileName), ShowTextDocument doc None], s)))
   \<and> (openTextDocument h (openArg fileName) = Resolved (Some doc) \<and>
       showTextDocument h doc None = Resolved editor \<and>
       executeCommand h ''workbench.action.closeOtherEditors'' = Resolved () \<longrightarrow>
         handleExtensionRequest h buffers (OpenFile fileName CloseAll) s =
           (Returned,
            [OpenTextDocument (openArg fileName), ShowTextDocument doc None,
             ExecuteCommand ''workbench.action.closeOtherEditors''], s)
         \<and> fold hostCall
              (take 1 (fst (snd (handleExtensionRequest h buffers (OpenFile fileName CloseAll) s))))
              eds = eds
         \<and> fold hostCall
              (take 2 (fst (snd (handleExtensionRequest h buffers (OpenFile fileName CloseAll) s))))
              eds \<noteq> []
         \<and> length (fold hostCall
              (fst (snd (handleExtensionRequest h buffers (OpenFile fileName CloseAll) s)))
              eds) = 1)
   \<and> (openTextDocument h (openArg fileName) = Resolved (Some doc) \<and>
       showTextDocument h doc None = Resolved editor \<and>
       executeCommand h ''workbench.action.closeOtherEditors'' = Rejected \<longrightarrow>
         handleExtensionRequest h buffers (OpenFile fileName CloseAll) s =
           (Threw,
            [OpenTextDocument (openArg fileName), ShowTextDocument doc None,
             ExecuteCommand ''workbench.action.closeOtherEditors''], s))"
  by (auto simp: openFile_def closeCurrent_def closeOthers_def openArg_def Let_def
      split: reply.splits option.splits close_mode.splits prod.splits outcome.splits)

theorem open_file_contract_witness:
  "handleExtensionRequest exampleHost (Resolved []) (OpenFile ''  a.txt '' (CloseNum 1)) exampleState =
     (Returned,
      [OpenTextDocument (Some ''a.txt''),
       ExecuteCommand ''workbench.action.revertAndCloseActiveEditor'',
       ShowTextDocument 30 (Some 1)], exampleState)
   \<and> fold hostCall
        (fst (snd (handleExtensionRequest exampleHost (Resolved [])
           (OpenFile ''  a.txt '' (CloseNum 1)) exampleState)))
        [(10, Some 1), (20, Some 2)] = [(30, Some 1), (20, Some 2)]
   \<and> handleExtensionRequest exampleHost (Resolved []) (OpenFile ''__vscode_new__'' CloseAll) exampleState =
     (Returned,
      [OpenTextDocument None, ShowTextDocument 30 None,
       ExecuteCommand ''workbench.action.closeOtherEditors''], exampleState)
   \<and> fold hostCall
        (fst (snd (handleExtensionRequest exampleHost (Resolved [])
           (OpenFile ''__vscode_new__'' CloseAll) exampleState)))
        [(10, Some 1), (20, Some 2)] = [(30, None)]"
  using open_file_contract [where h = exampleHost and buffers = "Resolved []" and s = exampleState
      and fileName = "''  a.txt ''" and n = 1 and e = 1 and doc = 30 and editor = 4
      and eds = "[(10, Some 1), (20, Some 2)]"]
    open_file_contract [where h = exampleHost and buffers = "Resolved []" and s = exampleState
      and fileName = "''__vscode_new__''" and doc = 30 and editor = 4
      and eds = "[(10, Some 1), (20, Some 2)]"]
  by (simp add: openArg_def exampleHost_def trim_def isWhiteSpace_def)

end
